theory Spec2Isabelle
  imports Complex_Main
begin

section \<open>Data model of the RegionManager\<close>

text \<open>
  The RegionManager keeps, for every displayed genome, a strip of regions. JavaScript
  numbers are idealised as real numbers: \<open>Math.floor\<close> is \<open>\<lfloor>_\<rfloor>\<close>, \<open>Math.round\<close> is
  \<open>\<lfloor>x + 1/2\<rfloor>\<close>, and sums are exact. A numeric field that the code may find unset
  (\<open>width\<close>, \<open>deltaX\<close>) is represented by \<open>0\<close>, which the code's own tests
  (\<open>r.width || minWidth\<close>) treat exactly as an unset field (\<open>makeRegion\<close>, the one
  function that distinguishes the two, takes its argument with optional fields). Object
  identity (\<open>===\<close>, \<open>indexOf\<close>) is rendered as equality of the records. A promise is
  rendered by the value it resolves to, and its continuation by a function of that value.
  The fields of a region carry the prefix \<open>r_\<close> (\<open>end\<close>, \<open>id\<close> and \<open>length\<close> are taken in
  Isabelle), the parameter \<open>frac\<close> of \<open>splitRegion\<close> is \<open>fract\<close> and the parameter \<open>min\<close> of
  \<open>_move\<close> is \<open>minw\<close>, and \<open>_move\<close> itself is \<open>move\<close>.
\<close>

record chromosome =
  c_name :: string
  c_length :: real

record genome =
  g_name :: string
  g_chromosomes :: "chromosome list"

record region =
  r_genome :: genome
  r_chr :: chromosome
  r_start :: real
  r_end :: real
  r_width :: real
  r_deltaX :: real
  r_reversed :: bool
  r_id :: "nat option"
  r_index :: "int option"
  r_length :: "real option"

record strip =
  s_genome :: genome
  s_regions :: "region list"


section \<open>LayoutEngine: scaleAdjust, layoutStrip, layout\<close>

text \<open>
  \<open>scaleAdjust (nums, width, mWidth)\<close>. The two \<open>reduce\<close> calls are left folds; the
  deficit, which the source tallies inside the \<open>map\<close> callback, is the left fold of the
  same test over the same list. Where the sum of a non-empty list is 0, JavaScript
  divides to an infinity or to NaN and HOL to 0: the model is the code for weights
  whose sum is not 0, and the theorems below ask for positive weights. The division
  by \<open>sum2\<close> is evaluated for an entry above the minimum only, and \<open>sum2\<close> is positive
  then.
\<close>

definition scaleOne :: "real \<Rightarrow> real \<Rightarrow> real \<Rightarrow> real" where
  "scaleOne f mWidth n = (let n2 = f * n in if n2 < mWidth then mWidth else n2)"

definition deficitOf :: "real \<Rightarrow> real \<Rightarrow> real list \<Rightarrow> real" where
  "deficitOf f mWidth nums =
     foldl (\<lambda>deficit n. let n2 = f * n in
              if n2 < mWidth then deficit + (mWidth - n2) else deficit) 0 nums"

definition scaleAdjust :: "real list \<Rightarrow> real \<Rightarrow> real \<Rightarrow> real list" where
  "scaleAdjust nums width mWidth =
     (let sum = foldl (\<lambda>t n. t + n) 0 nums;
          f = width / sum;
          deficit = deficitOf f mWidth nums;
          scaled = map (scaleOne f mWidth) nums
      in if deficit = 0 then scaled
         else
           let sum2 = foldl (\<lambda>t n. t + (if n > mWidth then n else 0)) 0 scaled
           in map (\<lambda>n. n - deficit * (if n > mWidth then n / sum2 else 0)) scaled)"

text \<open>
  The \<open>forEach\<close> of \<open>layoutStrip\<close>: region \<open>i\<close> receives \<open>widths[i]\<close>, its length in
  base pairs and the running offset \<open>dx\<close>, which then advances by the width and the gap.
\<close>

fun place :: "(region \<times> real) list \<Rightarrow> real \<Rightarrow> real \<Rightarrow> region list" where
  "place [] dx gap = []"
| "place ((r, w) # rws) dx gap =
     r\<lparr>r_width := w, r_deltaX := dx, r_length := Some (r_end r - r_start r + 1)\<rparr>
       # place rws (dx + w + gap) gap"

text \<open>\<open>width || this.app.zoomWidth\<close>: an absent or zero width falls back to the view's.\<close>

definition effWidth :: "real \<Rightarrow> real option \<Rightarrow> real" where
  "effWidth zoomWidth width =
     (case width of None \<Rightarrow> zoomWidth | Some w \<Rightarrow> if w = 0 then zoomWidth else w)"

definition widths0 :: "region list \<Rightarrow> real list" where
  "widths0 regions = map (\<lambda>r. if r_width r = 0 then 25 else r_width r) regions"

definition availWidth :: "real \<Rightarrow> region list \<Rightarrow> real" where
  "availWidth width regions = width - (12 + 2 * (real (length regions) - 1))"

definition layoutStrip :: "real \<Rightarrow> strip \<Rightarrow> real option \<Rightarrow> strip" where
  "layoutStrip zoomWidth strip width0 =
     (let width = effWidth zoomWidth width0;
          dx = 12;
          gap = 2;
          minWidth = 25;
          widths = scaleAdjust (widths0 (s_regions strip))
                     (availWidth width (s_regions strip)) minWidth
      in strip\<lparr>s_regions := place (zip (s_regions strip) widths) dx gap\<rparr>)"

definition layout :: "real \<Rightarrow> strip list \<Rightarrow> real option \<Rightarrow> strip list" where
  "layout zoomWidth strips width = map (\<lambda>strip. layoutStrip zoomWidth strip width) strips"

section \<open>Errors and lookups\<close>

text \<open>
  \<open>u.fail\<close> raises; reading a property of \<open>undefined\<close> or \<open>null\<close> raises a TypeError.
\<close>

datatype error = InvalidParameter | TypeError

text \<open>\<open>Array.prototype.indexOf\<close>: the first position of the element, \<open>None\<close> for \<open>-1\<close>.\<close>

fun indexOf :: "'a list \<Rightarrow> 'a \<Rightarrow> nat option" where
  "indexOf [] x = None"
| "indexOf (y # ys) x = (if y = x then Some 0 else map_option Suc (indexOf ys x))"

definition findStrip :: "strip list \<Rightarrow> genome \<Rightarrow> nat option" where
  "findStrip strips g = indexOf (map s_genome strips) g"

text \<open>
  \<open>findRegion\<close> returns \<open>[i, j]\<close> and every caller tests \<open>j === -1\<close> only, which also covers
  \<open>i === -1\<close>; the pair is \<open>None\<close> in that case.
\<close>

definition findRegion :: "strip list \<Rightarrow> region \<Rightarrow> (nat \<times> nat) option" where
  "findRegion strips r =
     (case findStrip strips (r_genome r) of
        None \<Rightarrow> None
      | Some i \<Rightarrow> (case indexOf (s_regions (strips ! i)) r of
                    None \<Rightarrow> None
                  | Some j \<Rightarrow> Some (i, j)))"

section \<open>RegionModel: makeRegion\<close>

text \<open>
  The argument of \<open>makeRegion\<close>: an object whose \<open>width\<close>, \<open>deltaX\<close> and \<open>reversed\<close>
  may be absent. The result carries a fresh id, taken from the counter \<open>rCount\<close>.
\<close>

record init =
  i_genome :: genome
  i_chr :: chromosome
  i_start :: real
  i_end :: real
  i_width :: "real option"
  i_deltaX :: "real option"
  i_reversed :: "bool option"
  i_index :: "int option"
  i_length :: "real option"

definition makeRegion :: "nat \<Rightarrow> init \<Rightarrow> region \<times> nat" where
  "makeRegion rCount r =
     (\<lparr>r_genome = i_genome r, r_chr = i_chr r, r_start = i_start r, r_end = i_end r,
       r_width = (case i_width r of None \<Rightarrow> 1 | Some w \<Rightarrow> w),
       r_deltaX = (case i_deltaX r of None \<Rightarrow> 0 | Some d \<Rightarrow> d),
       r_reversed = (case i_reversed r of None \<Rightarrow> False | Some b \<Rightarrow> b),
       r_id = Some rCount, r_index = i_index r, r_length = i_length r\<rparr>,
      rCount + 1)"

text \<open>A region of a laid-out strip, passed to \<open>makeRegion\<close>: every field is present.\<close>

definition asInit :: "region \<Rightarrow> init" where
  "asInit r =
     \<lparr>i_genome = r_genome r, i_chr = r_chr r, i_start = r_start r, i_end = r_end r,
      i_width = Some (r_width r), i_deltaX = Some (r_deltaX r),
      i_reversed = Some (r_reversed r), i_index = r_index r, i_length = r_length r\<rparr>"

text \<open>An object literal \<open>{genome, chr, start, end}\<close>.\<close>

definition coords :: "genome \<Rightarrow> chromosome \<Rightarrow> real \<Rightarrow> real \<Rightarrow> init" where
  "coords g c s e =
     \<lparr>i_genome = g, i_chr = c, i_start = s, i_end = e, i_width = None, i_deltaX = None,
      i_reversed = None, i_index = None, i_length = None\<rparr>"

text \<open>
  The same literal placed in a strip without passing through \<open>makeRegion\<close>: no id, and
  the unset fields in their falsy representation.
\<close>

definition rawRegion :: "genome \<Rightarrow> chromosome \<Rightarrow> real \<Rightarrow> real \<Rightarrow> real \<Rightarrow> region" where
  "rawRegion g c s e w =
     \<lparr>r_genome = g, r_chr = c, r_start = s, r_end = e, r_width = w, r_deltaX = 0,
      r_reversed = False, r_id = None, r_index = None, r_length = None\<rparr>"

section \<open>NavigationTransform: zoomScrollRegion, splitRegion\<close>

definition zoomScrollRegion :: "region \<Rightarrow> real \<Rightarrow> real \<Rightarrow> error + region" where
  "zoomScrollRegion r zAmt sAmt =
     (if zAmt \<le> 0 then Inl InvalidParameter
      else
        let L = r_end r - r_start r + 1;
            L2 = zAmt * L;
            delta = sAmt * max L L2 * (if r_reversed r then - 1 else 1);
            mid = (r_start r + r_end r) / 2;
            s2 = of_int \<lfloor>mid - L2 / 2 + delta + 1\<rfloor>;
            e2 = of_int \<lfloor>s2 + L2 - 1\<rfloor>
        in Inr (r\<lparr>r_start := s2, r_end := e2\<rparr>))"



section \<open>BorderResizer: moveBorder\<close>

text \<open>
  The inner function \<open>_move\<close>. It returns the amount moved; the regions it mutates in
  place are returned with it. \<open>regions[i]\<close> is \<open>undefined\<close> outside the array, also at
  \<open>i = -1\<close>, which the shrinking direction reaches; the two width updates read the
  regions as the recursive call left them.
\<close>

definition shift :: "region list \<Rightarrow> nat \<Rightarrow> real \<Rightarrow> region list" where
  "shift regions i amt =
     (let a = regions ! i;
          b = regions ! (i + 1)
      in regions[i := a\<lparr>r_width := r_width a + amt\<rparr>,
                 i + 1 := b\<lparr>r_width := r_width b - amt, r_deltaX := r_deltaX b + amt\<rparr>])"

function move :: "region list \<Rightarrow> int \<Rightarrow> real \<Rightarrow> real \<Rightarrow> region list \<times> real" where
  "move regions i amt minw =
     (if i < 0 \<or> int (length regions) \<le> i + 1 then (regions, 0)
      else if amt > 0 then
        (let shove = max 0 (amt - (r_width (regions ! nat (i + 1)) - minw))
         in if shove > 0
            then (let (regions', shoved) = move regions (i + 1) shove minw;
                      amt' = amt - (shove - shoved)
                  in (shift regions' (nat i) amt', amt'))
            else (shift regions (nat i) amt, amt))
      else if amt < 0 then
        (let shove = min 0 (amt + (r_width (regions ! nat i) - minw))
         in if shove < 0
            then (let (regions', shoved) = move regions (i - 1) shove minw;
                      amt' = amt - (shove - shoved)
                  in (shift regions' (nat i) amt', amt'))
            else (shift regions (nat i) amt, amt))
      else (regions, 0))"
  by pat_completeness auto
termination
  by (relation "measure (\<lambda>(regions, i, amt, m).
         if amt > 0 then nat (int (length regions) - i) else nat (i + 1))") auto

definition moveBorder :: "strip list \<Rightarrow> region \<Rightarrow> real \<Rightarrow> strip list" where
  "moveBorder strips r1 amt =
     (case findRegion strips r1 of
        None \<Rightarrow> strips
      | Some (si, ri) \<Rightarrow>
          strips[si := (strips ! si)\<lparr>s_regions :=
                    fst (move (s_regions (strips ! si)) (int ri) amt 25)\<rparr>])"

text \<open>
  The cascade in the words of the specification, on the widths alone. The regions that
  follow the border take up an excess \<open>e\<close> one after the other: each gives up its slack
  above the minimum, at most what is left of the excess, and hands the rest on; what
  is left at the end of the strip is dropped. Growing the region at \<open>k\<close> takes the
  width from the regions to its right; shrinking it takes the width from the region at
  \<open>k\<close> and the regions to its left, and gives it to the region at \<open>k + 1\<close>.
\<close>

fun absorb :: "real \<Rightarrow> real \<Rightarrow> real list \<Rightarrow> real list" where
  "absorb m e [] = []"
| "absorb m e (w # ws) = (let t = min e (w - m) in (w - t) # absorb m (e - t) ws)"

definition absorbed :: "real \<Rightarrow> real \<Rightarrow> real list \<Rightarrow> real" where
  "absorbed m e ws = sum_list ws - sum_list (absorb m e ws)"

definition growSpec :: "real \<Rightarrow> nat \<Rightarrow> real \<Rightarrow> real list \<Rightarrow> real list" where
  "growSpec m k amt ws =
     take k ws @ [ws ! k + absorbed m amt (drop (k + 1) ws)] @ absorb m amt (drop (k + 1) ws)"

definition shrinkSpec :: "real \<Rightarrow> nat \<Rightarrow> real \<Rightarrow> real list \<Rightarrow> real list" where
  "shrinkSpec m k amt ws =
     rev (absorb m (- amt) (rev (take (k + 1) ws)))
       @ [ws ! (k + 1) + absorbed m (- amt) (rev (take (k + 1) ws))] @ drop (k + 2) ws"

section \<open>SyntenyMapper: combineRegions, mapRegionToGenome\<close>

text \<open>
  A block returned by the translator. \<open>regions.sort((a, b) => a.index - b.index)\<close> is
  a stable sort on the index (\<open>sort_key\<close> is one); the \<open>reduce\<close> is a left fold whose
  accumulator ends in \<open>prev\<close>, which the second branch mutates in place.
\<close>

record block =
  b_chr :: chromosome
  b_start :: real
  b_end :: real
  b_index :: int

definition combineStep :: "block list \<Rightarrow> block \<Rightarrow> block list" where
  "combineStep nrs r =
     (if nrs \<noteq> [] \<and> b_index (last nrs) = b_index r then nrs
      else if nrs \<noteq> [] \<and> b_index (last nrs) + 1 = b_index r
      then butlast nrs @ [(last nrs)\<lparr>b_end := b_end r, b_index := b_index r\<rparr>]
      else nrs @ [r])"

definition combineRegions :: "block list \<Rightarrow> block list" where
  "combineRegions regions = foldl combineStep [] (sort_key b_index regions)"

text \<open>
  The coalescing in the words of the specification: walk the sorted blocks with the
  current group in hand; a block with the group's index is dropped, a block with the
  next index extends the group's end, any other block closes the group and starts a
  new one.
\<close>

fun groups :: "block \<Rightarrow> block list \<Rightarrow> block list" where
  "groups cur [] = [cur]"
| "groups cur (r # rs) =
     (if b_index cur = b_index r then groups cur rs
      else if b_index cur + 1 = b_index r
      then groups (cur\<lparr>b_end := b_end r, b_index := b_index r\<rparr>) rs
      else cur # groups r rs)"

definition combineSpec :: "block list \<Rightarrow> block list" where
  "combineSpec regions =
     (case sort_key b_index regions of [] \<Rightarrow> [] | r # rs \<Rightarrow> groups r rs)"

text \<open>
  A combined block as the region \<open>mapRegionToGenome\<close> makes of it: the genome is set,
  the width is the length in base pairs.
\<close>

definition blockRegion :: "genome \<Rightarrow> block \<Rightarrow> region" where
  "blockRegion g b =
     \<lparr>r_genome = g, r_chr = b_chr b, r_start = b_start b, r_end = b_end b,
      r_width = b_end b - b_start b + 1, r_deltaX = 0, r_reversed = False, r_id = None,
      r_index = Some (b_index b), r_length = None\<rparr>"

type_synonym translator = "genome \<Rightarrow> string \<Rightarrow> real \<Rightarrow> real \<Rightarrow> genome \<Rightarrow> block list"

definition mapRegionToGenome :: "translator \<Rightarrow> region \<Rightarrow> genome \<Rightarrow> strip" where
  "mapRegionToGenome translate r g =
     (if r_genome r = g then \<lparr>s_genome = g, s_regions = [r]\<rparr>
      else
        let rs = translate (r_genome r) (c_name (r_chr r)) (r_start r) (r_end r) g
        in \<lparr>s_genome = g, s_regions = map (blockRegion g) (combineRegions rs)\<rparr>)"

section \<open>LandmarkAligner: computeLandmarkRegion, guessLandmarkRegion\<close>

record feature =
  f_ID :: string
  f_genome :: genome
  f_chr :: chromosome
  f_start :: real
  f_end :: real
  f_strand :: string

record lcoords =
  l_landmark :: "string option"
  l_lgenome :: genome
  l_anchor :: "real option"
  l_delta :: real
  l_length :: real

text \<open>
  The feature store is an external collaborator; its methods are taken as they are
  called. \<open>getGenolog\<close> is called with the landmark's identifier and with a feature.
\<close>

record dataManager =
  dm_getGenologOfId :: "string option \<Rightarrow> genome \<Rightarrow> feature option"
  dm_getGenolog :: "feature \<Rightarrow> genome \<Rightarrow> feature option"
  dm_getGenologs :: "string option \<Rightarrow> genome list \<Rightarrow> feature option list"
  dm_getAllFeaturesNow :: "genome \<Rightarrow> chromosome \<Rightarrow> feature list"

text \<open>
  The loop of \<open>findNeighborGenolog\<close>, over the neighbours in the order in which the
  index \<open>ngi[ii]\<close> visits them: it skips a neighbour that overlaps the landmark and stops
  at the first one that has a genolog in the target genome.
\<close>

fun findNeighborGenolog ::
  "dataManager \<Rightarrow> feature \<Rightarrow> genome \<Rightarrow> int \<Rightarrow> feature list \<Rightarrow> feature option" where
  "findNeighborGenolog dm lmf genome inc [] = None"
| "findNeighborGenolog dm lmf genome inc (n # ns) =
     (if inc > 0 \<and> f_start n < f_end lmf then findNeighborGenolog dm lmf genome inc ns
      else if inc < 0 \<and> f_end n > f_start lmf then findNeighborGenolog dm lmf genome inc ns
      else (case dm_getGenolog dm n genome of
              None \<Rightarrow> findNeighborGenolog dm lmf genome inc ns
            | Some ng \<Rightarrow> Some ng))"

text \<open>
  The result is \<open>null\<close> (\<open>None\<close>) when no neighbour has a genolog; \<open>lmf.chr\<close> raises when
  the landmark is unknown in its own genome. \<open>neighbors.indexOf(lmf)\<close> is \<open>-1\<close> when the
  landmark is not in the list: the walk to the left then starts at \<open>-2\<close> and finds
  nothing, the walk to the right starts at \<open>0\<close>.
\<close>

definition neighborWindows ::
  "nat \<Rightarrow> lcoords \<Rightarrow> genome \<Rightarrow> feature \<Rightarrow> feature \<Rightarrow> strip \<times> nat" where
  "neighborWindows rCount lc genome ng1 ng2 =
     (if f_chr ng1 = f_chr ng2
      then
        let mp = (min (f_start ng1) (f_start ng2) + max (f_end ng1) (f_end ng2)) / 2;
            s = of_int \<lfloor>mp - l_length lc / 2\<rfloor>;
            (r, rCount') = makeRegion rCount
                             (coords genome (f_chr ng1) s (s + l_length lc - 1))
        in (\<lparr>s_genome = genome, s_regions = [r]\<rparr>, rCount')
      else
        let s1 = of_int \<lfloor>f_start ng1 - l_length lc / 2\<rfloor>;
            s2 = of_int \<lfloor>f_start ng2 - l_length lc / 2\<rfloor>
        in (\<lparr>s_genome = genome, s_regions =
               [rawRegion genome (f_chr ng1) s1 (s1 + l_length lc - 1) 0,
                rawRegion genome (f_chr ng2) s2 (s2 + l_length lc - 1) 0]\<rparr>,
            rCount))"

definition guessLandmarkRegion ::
  "dataManager \<Rightarrow> nat \<Rightarrow> lcoords \<Rightarrow> genome \<Rightarrow> error + (strip option \<times> nat)" where
  "guessLandmarkRegion dm rCount lc genome =
     (case dm_getGenologOfId dm (l_landmark lc) (l_lgenome lc) of
        None \<Rightarrow> Inl TypeError
      | Some lmf \<Rightarrow>
          let neighbors = dm_getAllFeaturesNow dm (l_lgenome lc) (f_chr lmf);
              lmi = (case indexOf neighbors lmf of None \<Rightarrow> - 1 | Some k \<Rightarrow> int k);
              ng1 = findNeighborGenolog dm lmf genome (- 1) (rev (take (nat lmi) neighbors));
              ng2 = findNeighborGenolog dm lmf genome 1 (drop (nat (lmi + 1)) neighbors)
          in (case (ng1, ng2) of
                (None, None) \<Rightarrow> Inr (None, rCount)
              | (None, Some n2) \<Rightarrow>
                  (let (strip, rCount') = neighborWindows rCount lc genome n2 n2
                   in Inr (Some strip, rCount'))
              | (Some n1, None) \<Rightarrow>
                  (let (strip, rCount') = neighborWindows rCount lc genome n1 n1
                   in Inr (Some strip, rCount'))
              | (Some n1, Some n2) \<Rightarrow>
                  (let (strip, rCount') = neighborWindows rCount lc genome n1 n2
                   in Inr (Some strip, rCount'))))"

text \<open>
  The anchor position of \<open>computeLandmarkRegion\<close>. \<open>alignOn\<close> is the configuration
  value \<open>config.ZoomRegion.featureAlignment\<close>.
\<close>

definition anchorPos :: "string \<Rightarrow> lcoords \<Rightarrow> feature \<Rightarrow> real" where
  "anchorPos alignOn lc lm =
     (case l_anchor lc of
        Some anchor \<Rightarrow> f_start lm + anchor * (f_end lm - f_start lm + 1)
      | None \<Rightarrow>
          if alignOn = ''3-prime'' then (if f_strand lm = ''+'' then f_end lm else f_start lm)
          else if alignOn = ''proximal'' then f_start lm
          else if alignOn = ''distal'' then f_end lm
          else if alignOn = ''midpoint'' then of_int \<lfloor>(f_start lm + f_end lm) / 2\<rfloor>
          else (if f_strand lm = ''+'' then f_start lm else f_end lm))"

fun makeRegions :: "nat \<Rightarrow> init list \<Rightarrow> region list \<times> nat" where
  "makeRegions rCount [] = ([], rCount)"
| "makeRegions rCount (x # xs) =
     (let (r, rCount') = makeRegion rCount x;
          (rs, rCount'') = makeRegions rCount' xs
      in (r # rs, rCount''))"

definition computeLandmarkRegion ::
  "string \<Rightarrow> dataManager \<Rightarrow> nat \<Rightarrow> lcoords \<Rightarrow> genome \<Rightarrow> error + (strip option \<times> nat)" where
  "computeLandmarkRegion alignOn dm rCount lc genome =
     (let delta = l_delta lc;
          w = l_length lc;
          lms = List.map_filter (\<lambda>x. x) (dm_getGenologs dm (l_landmark lc) [genome])
      in if length lms = 0 then guessLandmarkRegion dm rCount lc genome
         else
           let (regions, rCount') = makeRegions rCount
                 (map (\<lambda>lm. let lmp = anchorPos alignOn lc lm;
                               s = of_int \<lfloor>lmp - w / 2 + 1 / 2\<rfloor> + delta
                           in coords genome (f_chr lm) s (s + w - 1)) lms)
           in Inr (Some \<lparr>s_genome = genome, s_regions = regions\<rparr>, rCount'))"

text \<open>The windows of a strip: the chromosome, start and end of each of its regions.\<close>

definition windows :: "strip \<Rightarrow> (chromosome \<times> real \<times> real) list" where
  "windows s = map (\<lambda>r. (r_chr r, r_start r, r_end r)) (s_regions s)"

section \<open>StripController: the application state, addStrip, addRegion, deleteStrip\<close>

record app =
  a_strips :: "strip list"
  a_rRegion :: "region option"
  a_scrollLock :: bool
  a_lcoords :: "lcoords option"
  a_currentSelection :: "string option list"
  a_zoomWidth :: real
  a_rCount :: nat

text \<open>
  \<open>this.app.lcoords && this.app.lcoords.landmark\<close>: the landmark is set and is not the
  empty string.
\<close>

definition landmarkOf :: "app \<Rightarrow> lcoords option" where
  "landmarkOf st =
     (case a_lcoords st of
        None \<Rightarrow> None
      | Some lc \<Rightarrow> (case l_landmark lc of
                     None \<Rightarrow> None
                   | Some name \<Rightarrow> if name = [] then None else Some lc))"

text \<open>
  The promise \<open>p\<close> of \<open>addStrip\<close>: the strip it resolves to. The parameter \<open>r\<close> is not
  read by the function's body. \<open>g.chromosomes[0]\<close> is \<open>undefined\<close> for a genome without
  chromosomes, and \<open>chr.length\<close> raises then.
\<close>

definition initialStrip ::
  "string \<Rightarrow> dataManager \<Rightarrow> translator \<Rightarrow> app \<Rightarrow> genome \<Rightarrow> region option
     \<Rightarrow> error + (strip option \<times> nat)" where
  "initialStrip alignOn dm translate st g r =
     (case landmarkOf st of
        Some lc \<Rightarrow> computeLandmarkRegion alignOn dm (a_rCount st) lc g
      | None \<Rightarrow>
          (case a_rRegion st of
             Some rr \<Rightarrow> Inr (Some (mapRegionToGenome translate rr g), a_rCount st)
           | None \<Rightarrow>
               (case g_chromosomes g of
                  [] \<Rightarrow> Inl TypeError
                | chr # _ \<Rightarrow>
                    Inr (Some \<lparr>s_genome = g, s_regions =
                            [rawRegion g chr 1 (min 10000000 (c_length chr)) 1]\<rparr>,
                         a_rCount st))))"

text \<open>
  The continuation of \<open>addStrip\<close> pushes the laid-out strip; \<open>layoutStrip\<close> raises on the
  \<open>null\<close> that \<open>guessLandmarkRegion\<close> may return.
\<close>

definition addStrip ::
  "string \<Rightarrow> dataManager \<Rightarrow> translator \<Rightarrow> app \<Rightarrow> genome \<Rightarrow> region option \<Rightarrow> error + app" where
  "addStrip alignOn dm translate st g r =
     (case initialStrip alignOn dm translate st g r of
        Inl e \<Rightarrow> Inl e
      | Inr (None, rCount') \<Rightarrow> Inl TypeError
      | Inr (Some strip, rCount') \<Rightarrow>
          Inr (st\<lparr>a_strips := a_strips st @ [layoutStrip (a_zoomWidth st) strip None],
                  a_rCount := rCount'\<rparr>))"

text \<open>
  \<open>addRegion\<close>. In \<open>this.addStrip(r.genome, r).then(this.layout())\<close> the argument
  \<open>this.layout()\<close> is evaluated at once, on the strips present at the call, before the
  promise of \<open>addStrip\<close> resolves.
\<close>

definition addRegion ::
  "string \<Rightarrow> dataManager \<Rightarrow> translator \<Rightarrow> app \<Rightarrow> init \<Rightarrow> bool \<Rightarrow> error + app" where
  "addRegion alignOn dm translate st r0 only =
     (let (r, rCount') = makeRegion (a_rCount st) r0;
          st1 = st\<lparr>a_rCount := rCount'\<rparr>
      in case findStrip (a_strips st1) (r_genome r) of
           None \<Rightarrow>
             addStrip alignOn dm translate
               (st1\<lparr>a_strips := layout (a_zoomWidth st1) (a_strips st1) None\<rparr>)
               (r_genome r) (Some r)
         | Some si \<Rightarrow>
             let s = a_strips st1 ! si;
                 r' = r\<lparr>r_width := (if length (s_regions s) \<noteq> 0
                                     then r_width (s_regions s ! 0) else 1)\<rparr>;
                 s' = s\<lparr>s_regions := (if only then [r'] else s_regions s @ [r'])\<rparr>
             in Inr (st1\<lparr>a_strips :=
                        layout (a_zoomWidth st1) ((a_strips st1)[si := s']) None\<rparr>))"

definition deleteStrip :: "app \<Rightarrow> genome \<Rightarrow> app" where
  "deleteStrip st g =
     (case findStrip (a_strips st) g of
        None \<Rightarrow> st
      | Some i \<Rightarrow>
          st\<lparr>a_rRegion := (case a_rRegion st of
                             None \<Rightarrow> None
                           | Some rr \<Rightarrow>
                               if indexOf (s_regions (a_strips st ! i)) rr \<noteq> None
                               then None else Some rr),
             a_strips := take i (a_strips st) @ drop (i + 1) (a_strips st)\<rparr>)"

section \<open>The navigation modes: computeMappedRegions, alignOnLandmark\<close>

text \<open>
  Modelled from the spec: \<open>u.removeDups\<close> and \<open>u.mergeArrays\<close> belong to the utilities
  module, which is not part of the sources. \<open>currentGenomes\<close> "returns the unique genomes";
  \<open>mergeUpdate\<close> "reconciles current strips against freshly computed ones by position,
  mutating existing objects in place wherever a positional correspondence exists; only
  the tail is structurally added or removed when lengths differ".
\<close>

fun removeDups :: "'a list \<Rightarrow> 'a list" where
  "removeDups [] = []"
| "removeDups (x # xs) = x # removeDups (filter (\<lambda>y. y \<noteq> x) xs)"

fun mergeArrays :: "('a \<Rightarrow> 'a \<Rightarrow> 'a) \<Rightarrow> 'a list \<Rightarrow> 'a list \<Rightarrow> 'a list" where
  "mergeArrays f [] bs = bs"
| "mergeArrays f (a # as) [] = []"
| "mergeArrays f (a # as) (b # bs) = f a b # mergeArrays f as bs"

definition currentGenomes :: "app \<Rightarrow> genome list" where
  "currentGenomes st = removeDups (map s_genome (a_strips st))"

definition mergeRegion :: "region \<Rightarrow> region \<Rightarrow> region" where
  "mergeRegion r1 r2 =
     r1\<lparr>r_chr := r_chr r2, r_genome := r_genome r2, r_start := r_start r2,
        r_end := r_end r2, r_width := r_width r2\<rparr>"

definition mergeStrip :: "strip \<Rightarrow> strip \<Rightarrow> strip" where
  "mergeStrip s1 s2 =
     s1\<lparr>s_genome := s_genome s2,
        s_regions := mergeArrays mergeRegion (s_regions s1) (s_regions s2)\<rparr>"

definition mergeUpdate :: "strip list \<Rightarrow> strip list \<Rightarrow> strip list" where
  "mergeUpdate strips strips' = mergeArrays mergeStrip strips strips'"

text \<open>
  The continuation of \<open>computeMappedRegions\<close>. Every mapped region gets its length as
  width; every region but the reference itself is passed through \<open>makeRegion\<close>.
\<close>

fun remake :: "region \<Rightarrow> nat \<Rightarrow> region list \<Rightarrow> region list \<times> nat" where
  "remake r rCount [] = ([], rCount)"
| "remake r rCount (rr # rrs) =
     (let rr' = rr\<lparr>r_width := r_end rr - r_start rr + 1\<rparr>;
          (x, rCount') = (if rr = r then (rr', rCount) else makeRegion rCount (asInit rr'));
          (xs, rCount'') = remake r rCount' rrs
      in (x # xs, rCount''))"

fun remakeStrips :: "region \<Rightarrow> nat \<Rightarrow> strip list \<Rightarrow> strip list \<times> nat" where
  "remakeStrips r rCount [] = ([], rCount)"
| "remakeStrips r rCount (s # ss) =
     (let (rs, rCount') = remake r rCount (s_regions s);
          (ss', rCount'') = remakeStrips r rCount' ss
      in (s\<lparr>s_regions := rs\<rparr> # ss', rCount''))"

definition computeMappedRegions ::
  "translator \<Rightarrow> app \<Rightarrow> region \<Rightarrow> genome list option \<Rightarrow> app" where
  "computeMappedRegions translate st r genomes =
     (let gs = (case genomes of None \<Rightarrow> currentGenomes st | Some gs \<Rightarrow> gs);
          strips = map (mapRegionToGenome translate r) gs;
          (strips', rCount') = remakeStrips r (a_rCount st) strips
      in st\<lparr>a_rRegion := Some r, a_scrollLock := False, a_lcoords := None,
            a_rCount := rCount',
            a_strips := layout (a_zoomWidth st) strips' None\<rparr>)"

text \<open>
  \<open>computeLandmarkRegions\<close>: one window computation per genome. A genome for which
  \<open>guessLandmarkRegion\<close> returns \<open>null\<close> puts \<open>null\<close> among the strips, and the
  continuation of \<open>alignOnLandmark\<close> raises on it, in \<open>mergeStrip\<close> or in \<open>layoutStrip\<close>.
\<close>

fun computeLandmarkRegions ::
  "string \<Rightarrow> dataManager \<Rightarrow> nat \<Rightarrow> lcoords \<Rightarrow> genome list \<Rightarrow> error + (strip option list \<times> nat)" where
  "computeLandmarkRegions alignOn dm rCount lc [] = Inr ([], rCount)"
| "computeLandmarkRegions alignOn dm rCount lc (g # gs) =
     (case computeLandmarkRegion alignOn dm rCount lc g of
        Inl e \<Rightarrow> Inl e
      | Inr (s, rCount') \<Rightarrow>
          (case computeLandmarkRegions alignOn dm rCount' lc gs of
             Inl e \<Rightarrow> Inl e
           | Inr (ss, rCount'') \<Rightarrow> Inr (s # ss, rCount'')))"

definition alignOnLandmark ::
  "string \<Rightarrow> dataManager \<Rightarrow> app \<Rightarrow> lcoords \<Rightarrow> genome list option \<Rightarrow> error + app" where
  "alignOnLandmark alignOn dm st lc genomes =
     (let gs = (case genomes of None \<Rightarrow> currentGenomes st | Some gs \<Rightarrow> gs)
      in case computeLandmarkRegions alignOn dm (a_rCount st) lc gs of
           Inl e \<Rightarrow> Inl e
         | Inr (strips, rCount') \<Rightarrow>
             if None \<in> set strips then Inl TypeError
             else Inr (st\<lparr>a_strips := layout (a_zoomWidth st)
                                       (mergeUpdate (a_strips st) (List.map_filter (\<lambda>x. x) strips))
                                       None,
                         a_rCount := rCount',
                         a_scrollLock := True,
                         a_lcoords := Some lc,
                         a_rRegion := None,
                         a_currentSelection := [l_landmark lc]\<rparr>))"

text \<open>The three navigation modes, read off the state.\<close>

definition lockedMode :: "app \<Rightarrow> bool" where
  "lockedMode st = a_scrollLock st"

definition referenceMode :: "app \<Rightarrow> bool" where
  "referenceMode st = (a_rRegion st \<noteq> None)"

definition landmarkMode :: "app \<Rightarrow> bool" where
  "landmarkMode st =
     (case a_lcoords st of None \<Rightarrow> False | Some lc \<Rightarrow> l_landmark lc \<noteq> None)"

definition activeModes :: "app \<Rightarrow> nat" where
  "activeModes st =
     (if lockedMode st then 1 else 0) + (if referenceMode st then 1 else 0)
       + (if landmarkMode st then 1 else 0)"

text \<open>
  What the operations keep of the modes: the reference mode excludes the other two,
  and the landmark mode comes with the lock.
\<close>

definition modesConsistent :: "app \<Rightarrow> bool" where
  "modesConsistent st =
     ((referenceMode st \<longrightarrow> \<not> lockedMode st \<and> \<not> landmarkMode st) \<and>
      (landmarkMode st \<longrightarrow> lockedMode st))"

text \<open>
  \<open>zoomScrollAllRegions\<close>: every region of every strip is zoomed and scrolled, in
  order; the first call of \<open>zoomScrollRegion\<close> raises when the zoom factor is not
  positive, and nothing raises when there is no region. An active landmark window has
  its length and delta rescaled and rounded.
\<close>

fun zoomScrollRegions :: "region list \<Rightarrow> real \<Rightarrow> real \<Rightarrow> error + region list" where
  "zoomScrollRegions [] zAmt sAmt = Inr []"
| "zoomScrollRegions (r # rs) zAmt sAmt =
     (case zoomScrollRegion r zAmt sAmt of
        Inl e \<Rightarrow> Inl e
      | Inr r' \<Rightarrow> (case zoomScrollRegions rs zAmt sAmt of
                     Inl e \<Rightarrow> Inl e
                   | Inr rs' \<Rightarrow> Inr (r' # rs')))"

fun zoomScrollStrips :: "strip list \<Rightarrow> real \<Rightarrow> real \<Rightarrow> error + strip list" where
  "zoomScrollStrips [] zAmt sAmt = Inr []"
| "zoomScrollStrips (s # ss) zAmt sAmt =
     (case zoomScrollRegions (s_regions s) zAmt sAmt of
        Inl e \<Rightarrow> Inl e
      | Inr rs \<Rightarrow> (case zoomScrollStrips ss zAmt sAmt of
                    Inl e \<Rightarrow> Inl e
                  | Inr ss' \<Rightarrow> Inr (s\<lparr>s_regions := rs\<rparr> # ss')))"

definition zoomScrollAllRegions :: "app \<Rightarrow> real \<Rightarrow> real \<Rightarrow> error + app" where
  "zoomScrollAllRegions st zAmt sAmt =
     (case zoomScrollStrips (a_strips st) zAmt sAmt of
        Inl e \<Rightarrow> Inl e
      | Inr strips \<Rightarrow>
          Inr (st\<lparr>a_strips := strips,
                  a_lcoords := (case landmarkOf st of
                                  None \<Rightarrow> a_lcoords st
                                | Some lc \<Rightarrow>
                                    let L2 = zAmt * l_length lc;
                                        d = sAmt * l_length lc + l_delta lc
                                    in Some (lc\<lparr>l_length := of_int \<lfloor>L2 + 1 / 2\<rfloor>,
                                                l_delta := of_int \<lfloor>d + 1 / 2\<rfloor>\<rparr>))\<rparr>))"

text \<open>
  The states that the RegionManager reaches from a state in which no mode is active.
  \<open>computeMappedRegions\<close>, \<open>alignOnLandmark\<close>, \<open>deleteStrip\<close>, \<open>addStrip\<close> and
  \<open>zoomScrollAllRegions\<close> are steps of their own; the \<open>remove\<close> and \<open>split\<close> branches of
  \<open>regionChange\<close> clear the reference; and every other operation (\<open>moveBorder\<close>, \<open>swap\<close>,
  \<open>splitRegion\<close>, \<open>addRegion\<close>, \<open>setRegion\<close>, \<open>removeRegion\<close>, \<open>jumpTo\<close>, \<open>reverseRegion\<close>,
  \<open>initializeRegions\<close>, \<open>setStrips\<close>) is a sequence of these steps and of changes to the
  strips and to the id counter alone, which the last step admits whatever they are.
\<close>

inductive reachable :: "string \<Rightarrow> dataManager \<Rightarrow> translator \<Rightarrow> app \<Rightarrow> bool"
  for alignOn :: string and dm :: dataManager and translate :: translator where
  start: "activeModes st = 0 \<Longrightarrow> reachable alignOn dm translate st"
| mapped: "reachable alignOn dm translate st \<Longrightarrow>
     reachable alignOn dm translate (computeMappedRegions translate st r genomes)"
| aligned: "reachable alignOn dm translate st \<Longrightarrow>
     alignOnLandmark alignOn dm st lc genomes = Inr st' \<Longrightarrow>
     reachable alignOn dm translate st'"
| deleted: "reachable alignOn dm translate st \<Longrightarrow>
     reachable alignOn dm translate (deleteStrip st g)"
| added: "reachable alignOn dm translate st \<Longrightarrow>
     addStrip alignOn dm translate st g r = Inr st' \<Longrightarrow>
     reachable alignOn dm translate st'"
| zoomed: "reachable alignOn dm translate st \<Longrightarrow>
     zoomScrollAllRegions st zAmt sAmt = Inr st' \<Longrightarrow>
     reachable alignOn dm translate st'"
| cleared: "reachable alignOn dm translate st \<Longrightarrow>
     reachable alignOn dm translate (st\<lparr>a_rRegion := None\<rparr>)"
| restripped: "reachable alignOn dm translate st \<Longrightarrow>
     reachable alignOn dm translate (st\<lparr>a_strips := strips, a_rCount := rCount\<rparr>)"

section \<open>Sample data\<close>

definition chr1 :: chromosome where
  "chr1 = \<lparr>c_name = ''1'', c_length = 195000000\<rparr>"

definition chr2 :: chromosome where
  "chr2 = \<lparr>c_name = ''2'', c_length = 182000000\<rparr>"

definition genomeA :: genome where
  "genomeA = \<lparr>g_name = ''A'', g_chromosomes = [chr1, chr2]\<rparr>"

definition genomeB :: genome where
  "genomeB = \<lparr>g_name = ''B'', g_chromosomes = [chr1, chr2]\<rparr>"

text \<open>
  A strip of genome A: region \<open>k\<close> (from 0) has id \<open>k\<close>, the window
  \<open>[1000 k + 1, 1000 k + 1000]\<close> of chromosome 1 and the \<open>k\<close>-th of the given widths.
\<close>

definition regionA :: "nat \<Rightarrow> real \<Rightarrow> region" where
  "regionA k w =
     (rawRegion genomeA chr1 (1000 * real k + 1) (1000 * real k + 1000) w)\<lparr>r_id := Some k\<rparr>"

definition stripA :: "real list \<Rightarrow> strip" where
  "stripA ws = \<lparr>s_genome = genomeA, s_regions = map (\<lambda>(k, w). regionA k w) (enumerate 0 ws)\<rparr>"

text \<open>
  Three blocks with the indices 0, 1 and 3, as the translator may return them.
\<close>

definition blockAt :: "int \<Rightarrow> block" where
  "blockAt k = \<lparr>b_chr = chr1, b_start = 100 * of_int k + 100, b_end = 100 * of_int k + 199,
               b_index = k\<rparr>"

text \<open>
  A landmark \<open>L\<close> of genome A between two neighbours \<open>N1\<close> and \<open>N2\<close> on chromosome 1.
  Genome B has no genolog of \<open>L\<close>; the feature store \<open>storeB left right\<close> gives \<open>N1\<close> the
  genolog \<open>left\<close> and \<open>N2\<close> the genolog \<open>right\<close> in genome B, where it has any.
\<close>

definition featureOn :: "string \<Rightarrow> genome \<Rightarrow> chromosome \<Rightarrow> real \<Rightarrow> real \<Rightarrow> feature" where
  "featureOn name g c s e =
     \<lparr>f_ID = name, f_genome = g, f_chr = c, f_start = s, f_end = e, f_strand = ''+''\<rparr>"

definition featL :: feature where
  "featL = featureOn ''L'' genomeA chr1 50000 51000"

definition featN1 :: feature where
  "featN1 = featureOn ''N1'' genomeA chr1 40000 41000"

definition featN2 :: feature where
  "featN2 = featureOn ''N2'' genomeA chr1 60000 61000"

definition storeB :: "feature option \<Rightarrow> feature option \<Rightarrow> dataManager" where
  "storeB left right =
     \<lparr>dm_getGenologOfId =
        (\<lambda>name g. if name = Some ''L'' \<and> g = genomeA then Some featL else None),
      dm_getGenolog =
        (\<lambda>f g. if g = genomeB \<and> f = featN1 then left
                else if g = genomeB \<and> f = featN2 then right else None),
      dm_getGenologs =
        (\<lambda>name gs. map (\<lambda>g. if name = Some ''L'' \<and> g = genomeA then Some featL else None) gs),
      dm_getAllFeaturesNow =
        (\<lambda>g c. if g = genomeA \<and> c = chr1 then [featN1, featL, featN2] else [])\<rparr>"

definition landmarkL :: lcoords where
  "landmarkL = \<lparr>l_landmark = Some ''L'', l_lgenome = genomeA, l_anchor = None, l_delta = 0,
                l_length = 1000\<rparr>"

text \<open>A translator without synteny blocks, and a state with no strip and no mode.\<close>

definition noBlocks :: translator where
  "noBlocks = (\<lambda>g c s e g'. [])"

definition emptyApp :: app where
  "emptyApp = \<lparr>a_strips = [], a_rRegion = None, a_scrollLock = False, a_lcoords = None,
               a_currentSelection = [], a_zoomWidth = 1000, a_rCount = 0\<rparr>"

section \<open>Layout: helper lemmas\<close>

lemma foldl_plus_sum: "foldl (\<lambda>t n. t + n) a xs = a + sum_list (xs :: real list)"
  by (induction xs arbitrary: a) simp_all

lemma foldl_deficit_sum:
  "foldl (\<lambda>deficit n. let n2 = f * n in
            if n2 < m then deficit + (m - n2) else deficit) a xs
   = a + sum_list (map (\<lambda>n. if f * n < m then m - f * n else 0) xs)"
  by (induction xs arbitrary: a) (simp_all add: Let_def algebra_simps)

lemma deficitOf_sum:
  "deficitOf f m xs = sum_list (map (\<lambda>n. if f * n < m then m - f * n else 0) xs)"
  by (simp add: deficitOf_def foldl_deficit_sum)

lemma foldl_above_sum:
  "foldl (\<lambda>t n. t + (if n > m then n else 0)) a xs
   = a + sum_list (map (\<lambda>n. if n > m then n else (0::real)) xs)"
  by (induction xs arbitrary: a) simp_all

lemma scaleAdjust_alt:
  "scaleAdjust nums width m =
     (if deficitOf (width / sum_list nums) m nums = 0
      then map (scaleOne (width / sum_list nums) m) nums
      else map (\<lambda>n. n - deficitOf (width / sum_list nums) m nums *
                  (if n > m then n / sum_list (map (\<lambda>n. if n > m then n else 0)
                       (map (scaleOne (width / sum_list nums) m) nums)) else 0))
             (map (scaleOne (width / sum_list nums) m) nums))"
  unfolding scaleAdjust_def Let_def foldl_plus_sum foldl_above_sum by simp

lemma deficitOf_nonneg: "0 \<le> deficitOf f m xs"
  unfolding deficitOf_sum by (rule sum_list_nonneg) auto


lemma sum_scaled:
  "sum_list (map (scaleOne f m) xs) = f * sum_list xs + deficitOf f m xs"
  by (induction xs) (simp_all add: deficitOf_sum scaleOne_def Let_def algebra_simps)

lemma scaleOne_ge: "m \<le> scaleOne f m x"
  by (simp add: scaleOne_def Let_def)




lemma length_scaleAdjust: "length (scaleAdjust nums width m) = length nums"
  by (simp add: scaleAdjust_alt)









lemma place_widths:
  "length rs = length ws \<Longrightarrow> map r_width (place (zip rs ws) dx gap) = ws"
  by (induction rs ws arbitrary: dx rule: list_induct2) simp_all




lemma layoutStrip_regions:
  "s_regions (layoutStrip zw strip width) =
     place (zip (s_regions strip)
              (scaleAdjust (widths0 (s_regions strip))
                 (availWidth (effWidth zw width) (s_regions strip)) 25)) 12 2"
  by (simp add: layoutStrip_def Let_def)

lemma length_widths0: "length (widths0 rs) = length rs"
  by (simp add: widths0_def)

lemma layoutStrip_widths:
  "map r_width (s_regions (layoutStrip zw strip width)) =
     scaleAdjust (widths0 (s_regions strip))
       (availWidth (effWidth zw width) (s_regions strip)) 25"
  by (simp add: layoutStrip_regions place_widths length_scaleAdjust length_widths0)




lemma widths0_pos: "\<forall>r\<in>set rs. 0 < r_width r \<Longrightarrow> widths0 rs = map r_width rs"
  by (auto simp: widths0_def)



lemma sum_list_pos_real:
  "xs \<noteq> [] \<Longrightarrow> \<forall>x\<in>set xs. (0::real) < x \<Longrightarrow> 0 < sum_list xs"
  by (induction xs) (auto intro: add_pos_nonneg sum_list_nonneg less_imp_le)


lemmas layout_eval = layout_def layoutStrip_def stripA_def regionA_def rawRegion_def scaleAdjust_def
  deficitOf_def scaleOne_def widths0_def availWidth_def effWidth_def Let_def



section \<open>Navigation and well-formedness: helper lemmas\<close>


lemma indexOf_Some: "indexOf xs x = Some i \<Longrightarrow> i < length xs \<and> xs ! i = x"
  by (induction xs arbitrary: i) (auto split: if_splits)

lemma findRegion_Some:
  "findRegion strips r = Some (si, ri) \<Longrightarrow>
     si < length strips \<and> ri < length (s_regions (strips ! si)) \<and> s_regions (strips ! si) ! ri = r"
  by (auto simp: findRegion_def findStrip_def split: option.splits dest!: indexOf_Some)






lemma sum_scaled_split:
  "sum_list (map (scaleOne f m) xs)
     = m * real (length (filter (\<lambda>x. f * x \<le> m) xs))
       + sum_list (map (\<lambda>n. if n > m then n else 0) (map (scaleOne f m) xs))"
  by (induction xs) (auto simp: scaleOne_def Let_def algebra_simps)

lemma scaleAdjust_pos:
  assumes S: "sum_list nums \<noteq> 0" and m: "0 < m"
    and room: "m * real (length (filter (\<lambda>x. width / sum_list nums * x \<le> m) nums)) < width"
  shows "\<forall>y\<in>set (scaleAdjust nums width m). 0 < y"
proof -
  let ?f = "width / sum_list nums"
  let ?scaled = "map (scaleOne ?f m) nums"
  let ?d = "deficitOf ?f m nums"
  let ?s2 = "sum_list (map (\<lambda>n. if n > m then n else 0) ?scaled)"
  let ?k = "real (length (filter (\<lambda>x. ?f * x \<le> m) nums))"
  have sc: "\<forall>y\<in>set ?scaled. 0 < y" using m scaleOne_ge[of m ?f] by (auto intro: less_le_trans)
  show ?thesis
  proof (cases "?d = 0")
    case True
    then show ?thesis using sc by (simp add: scaleAdjust_alt)
  next
    case False
    have "?f * sum_list nums = width" using S by simp
    then have "sum_list ?scaled = width + ?d" using sum_scaled[of ?f m nums] by simp
    moreover have "sum_list ?scaled = m * ?k + ?s2" by (rule sum_scaled_split)
    ultimately have gap: "?s2 - ?d = width - m * ?k" by linarith
    then have dlt: "?d < ?s2" using room by linarith
    have d0: "0 \<le> ?d" by (rule deficitOf_nonneg)
    have s2: "0 < ?s2" using dlt d0 by linarith
    have "0 < n - ?d * (if n > m then n / ?s2 else 0)" if "n \<in> set ?scaled" for n
    proof (cases "n > m")
      case True
      then have n: "0 < n" using m by linarith
      have eq: "n - ?d * (n / ?s2) = n * ((?s2 - ?d) / ?s2)" using s2 by (simp add: field_simps)
      have "0 < (?s2 - ?d) / ?s2" using dlt s2 by simp
      then have "0 < n * ((?s2 - ?d) / ?s2)" using n by (rule mult_pos_pos[rotated])
      then have "0 < n - ?d * (n / ?s2)" by (simp only: eq)
      then show ?thesis using True by (simp only: if_True)
    next
      case False
      then show ?thesis using sc that by auto
    qed
    then have "\<forall>y\<in>set (map (\<lambda>n. n - ?d * (if n > m then n / ?s2 else 0)) ?scaled). 0 < y"
      by (simp only: set_map ball_simps) blast
    then show ?thesis using False by (simp only: scaleAdjust_alt if_False)
  qed
qed

lemma layoutStrip_pos:
  assumes ne: "s_regions strip \<noteq> []"
    and pos: "\<forall>r\<in>set (s_regions strip). 0 < r_width r"
    and room: "25 * real (length (filter
                 (\<lambda>r. availWidth (effWidth zw width) (s_regions strip)
                        / sum_list (map r_width (s_regions strip)) * r_width r \<le> 25)
                 (s_regions strip)))
               < availWidth (effWidth zw width) (s_regions strip)"
  shows "list_all (\<lambda>r. 0 < r_width r) (s_regions (layoutStrip zw strip width))"
proof -
  let ?rs = "s_regions strip"
  let ?ws = "map r_width ?rs"
  let ?A = "availWidth (effWidth zw width) ?rs"
  have w0: "widths0 ?rs = ?ws" using pos by (rule widths0_pos)
  have "0 < sum_list ?ws" using ne pos by (intro sum_list_pos_real) auto
  then have S: "sum_list ?ws \<noteq> 0" by simp
  have len: "length (filter (\<lambda>x. ?A / sum_list ?ws * x \<le> 25) ?ws)
             = length (filter (\<lambda>r. ?A / sum_list ?ws * r_width r \<le> 25) ?rs)"
    by (simp add: filter_map comp_def)
  have "\<forall>y\<in>set (scaleAdjust ?ws ?A 25). 0 < y"
    by (rule scaleAdjust_pos[OF S]) (use room len in simp_all)
  then have "list_all (\<lambda>y. 0 < y) (map r_width (s_regions (layoutStrip zw strip width)))"
    using w0 by (simp add: layoutStrip_widths list_all_iff)
  then show ?thesis by (simp add: list_all_iff)
qed










section \<open>moveBorder: helper lemmas\<close>

declare move.simps [simp del]

lemma sum_list_update_real:
  "i < length xs \<Longrightarrow> sum_list (xs[i := v]) = sum_list xs - xs ! i + (v::real)"
  by (induction xs arbitrary: i) (auto split: nat.splits)

lemma length_shift: "length (shift rs i a) = length rs"
  by (simp add: shift_def Let_def)

lemma shift_widths:
  "i + 1 < length rs \<Longrightarrow>
   map r_width (shift rs i a)
     = (map r_width rs)[i := r_width (rs ! i) + a, i + 1 := r_width (rs ! (i + 1)) - a]"
  by (simp add: shift_def Let_def map_update)

lemma shift_sum:
  "i + 1 < length rs \<Longrightarrow> sum_list (map r_width (shift rs i a)) = sum_list (map r_width rs)"
  by (simp add: shift_widths sum_list_update_real)

lemma map_update_same: "(map f xs)[i := f (xs ! i)] = map f xs"
  by (metis list_update_id map_update)

lemma shift_keeps:
  "map r_start (shift rs i a) = map r_start rs"
  "map r_end (shift rs i a) = map r_end rs"
  "map r_chr (shift rs i a) = map r_chr rs"
  by (simp_all add: shift_def Let_def map_update map_update_same)

lemma move_out: "i < 0 \<or> int (length rs) \<le> i + 1 \<Longrightarrow> move rs i amt m = (rs, 0)"
  by (subst move.simps) simp

lemma move_zero: "move rs i 0 m = (rs, 0)"
  by (subst move.simps) simp

lemma move_grow_direct:
  assumes "0 \<le> i" "i + 1 < int (length rs)" "0 < amt" "amt \<le> r_width (rs ! nat (i + 1)) - m"
  shows "move rs i amt m = (shift rs (nat i) amt, amt)"
  by (subst move.simps) (use assms in \<open>simp add: Let_def max_def\<close>)

lemma move_grow_shove:
  assumes "0 \<le> i" "i + 1 < int (length rs)" "0 < amt" "r_width (rs ! nat (i + 1)) - m < amt"
  shows "move rs i amt m =
           (let (rs', shoved) = move rs (i + 1) (amt - (r_width (rs ! nat (i + 1)) - m)) m;
                amt' = r_width (rs ! nat (i + 1)) - m + shoved
            in (shift rs' (nat i) amt', amt'))"
proof -
  have eq: "r_width (rs ! nat (i + 1)) + (x - m) = r_width (rs ! nat (i + 1)) - m + x" for x
    by simp
  show ?thesis
    by (subst move.simps) (use assms in \<open>simp add: Let_def max_def eq split: prod.splits\<close>)
qed

lemma move_shrink_direct:
  assumes "0 \<le> i" "i + 1 < int (length rs)" "amt < 0" "- amt \<le> r_width (rs ! nat i) - m"
  shows "move rs i amt m = (shift rs (nat i) amt, amt)"
  by (subst move.simps) (use assms in \<open>simp add: Let_def min_def\<close>)

lemma move_shrink_shove:
  assumes "0 \<le> i" "i + 1 < int (length rs)" "amt < 0" "r_width (rs ! nat i) - m < - amt"
  shows "move rs i amt m =
           (let (rs', shoved) = move rs (i - 1) (amt + (r_width (rs ! nat i) - m)) m;
                amt' = shoved - (r_width (rs ! nat i) - m)
            in (shift rs' (nat i) amt', amt'))"
proof -
  have eq: "m + x - r_width (rs ! nat i) = x - (r_width (rs ! nat i) - m)" for x
    by simp
  show ?thesis
    by (subst move.simps) (use assms in \<open>simp add: Let_def min_def eq split: prod.splits\<close>)
qed

lemma move_cases:
  obtains (out) "i < 0 \<or> int (length rs) \<le> i + 1"
  | (zero) "0 \<le> i" "i + 1 < int (length rs)" "amt = 0"
  | (grow_direct) "0 \<le> i" "i + 1 < int (length rs)" "0 < amt" "amt \<le> r_width (rs ! nat (i + 1)) - m"
  | (grow_shove) "0 \<le> i" "i + 1 < int (length rs)" "0 < amt" "r_width (rs ! nat (i + 1)) - m < amt"
  | (shrink_direct) "0 \<le> i" "i + 1 < int (length rs)" "amt < 0" "- amt \<le> r_width (rs ! nat i) - m"
  | (shrink_shove) "0 \<le> i" "i + 1 < int (length rs)" "amt < 0" "r_width (rs ! nat i) - m < - amt"
  by (cases "i < 0 \<or> int (length rs) \<le> i + 1"; cases "amt = 0"; cases "0 < amt";
      cases "amt \<le> r_width (rs ! nat (i + 1)) - m"; cases "- amt \<le> r_width (rs ! nat i) - m")
    (auto simp: not_le not_less)

text \<open>The induction that follows the two cascades of \<open>move\<close>.\<close>

lemma move_induct [case_names out zero grow_direct grow_shove shrink_direct shrink_shove]:
  fixes rs :: "region list"
  assumes "\<And>i amt. i < 0 \<or> int (length rs) \<le> i + 1 \<Longrightarrow> P i amt"
    and "\<And>i. 0 \<le> i \<Longrightarrow> i + 1 < int (length rs) \<Longrightarrow> P i 0"
    and "\<And>i amt. 0 \<le> i \<Longrightarrow> i + 1 < int (length rs) \<Longrightarrow> 0 < amt \<Longrightarrow>
           amt \<le> r_width (rs ! nat (i + 1)) - m \<Longrightarrow> P i amt"
    and "\<And>i amt. 0 \<le> i \<Longrightarrow> i + 1 < int (length rs) \<Longrightarrow> 0 < amt \<Longrightarrow>
           r_width (rs ! nat (i + 1)) - m < amt \<Longrightarrow>
           P (i + 1) (amt - (r_width (rs ! nat (i + 1)) - m)) \<Longrightarrow> P i amt"
    and "\<And>i amt. 0 \<le> i \<Longrightarrow> i + 1 < int (length rs) \<Longrightarrow> amt < 0 \<Longrightarrow>
           - amt \<le> r_width (rs ! nat i) - m \<Longrightarrow> P i amt"
    and "\<And>i amt. 0 \<le> i \<Longrightarrow> i + 1 < int (length rs) \<Longrightarrow> amt < 0 \<Longrightarrow>
           r_width (rs ! nat i) - m < - amt \<Longrightarrow>
           P (i - 1) (amt + (r_width (rs ! nat i) - m)) \<Longrightarrow> P i amt"
  shows "P i amt"
proof -
  have "regions = rs \<Longrightarrow> minw = m \<Longrightarrow> P i amt" for regions minw
  proof (induction regions i amt minw rule: move.induct)
    case (1 regions i amt minw)
    note eqs = "1.prems"
    show ?case
    proof (cases rule: move_cases[where i = i and rs = rs and amt = amt and m = m])
      case out
      then show ?thesis using assms(1) by blast
    next
      case zero
      then show ?thesis using assms(2) by blast
    next
      case grow_direct
      then show ?thesis using assms(3) by blast
    next
      case grow_shove
      have c: "\<not> (i < 0 \<or> int (length regions) \<le> i + 1)" using grow_shove eqs by simp
      have mx: "max 0 (amt - (r_width (regions ! nat (i + 1)) - minw))
                  = amt - (r_width (rs ! nat (i + 1)) - m)"
        using grow_shove(4) eqs by (simp add: max_def)
      have p: "0 < max 0 (amt - (r_width (regions ! nat (i + 1)) - minw))"
        unfolding mx using grow_shove(4) by simp
      have "P (i + 1) (max 0 (amt - (r_width (regions ! nat (i + 1)) - minw)))"
        using "1.IH"(1)[OF c grow_shove(3) refl p eqs] .
      then have "P (i + 1) (amt - (r_width (rs ! nat (i + 1)) - m))"
        by (simp only: mx)
      then show ?thesis
        using grow_shove assms(4) by blast
    next
      case shrink_direct
      then show ?thesis using assms(5) by blast
    next
      case shrink_shove
      have c: "\<not> (i < 0 \<or> int (length regions) \<le> i + 1)" using shrink_shove eqs by simp
      have na: "\<not> 0 < amt" using shrink_shove(3) by simp
      have mn: "min 0 (amt + (r_width (regions ! nat i) - minw))
                  = amt + (r_width (rs ! nat i) - m)"
        using shrink_shove(4) eqs by (simp add: min_def)
      have p: "min 0 (amt + (r_width (regions ! nat i) - minw)) < 0"
        unfolding mn using shrink_shove(4) by simp
      have "P (i - 1) (min 0 (amt + (r_width (regions ! nat i) - minw)))"
        using "1.IH"(2)[OF c na shrink_shove(3) refl p eqs] .
      then have "P (i - 1) (amt + (r_width (rs ! nat i) - m))"
        by (simp only: mn)
      then show ?thesis
        using shrink_shove assms(6) by blast
    qed
  qed
  then show ?thesis by simp
qed

lemma move_length: "length (fst (move rs i amt m)) = length rs"
proof (induction i amt rule: move_induct[where rs = rs and m = m])
  case (grow_shove i amt)
  then show ?case by (auto simp: move_grow_shove Let_def length_shift split: prod.splits)
next
  case (shrink_shove i amt)
  then show ?case by (auto simp: move_shrink_shove Let_def length_shift split: prod.splits)
qed (simp_all add: move_out move_zero move_grow_direct move_shrink_direct length_shift)

lemma move_sum: "sum_list (map r_width (fst (move rs i amt m))) = sum_list (map r_width rs)"
proof (induction i amt rule: move_induct[where rs = rs and m = m])
  case (grow_shove i amt)
  obtain rs' shoved where mv: "move rs (i + 1) (amt - (r_width (rs ! nat (i + 1)) - m)) m = (rs', shoved)"
    by (metis surj_pair)
  have "length rs' = length rs" using move_length[of rs "i + 1" _ m] mv by (metis fst_conv)
  then have "nat i + 1 < length rs'" using grow_shove by auto
  then show ?case using grow_shove mv
    by (simp add: move_grow_shove Let_def shift_sum)
next
  case (shrink_shove i amt)
  obtain rs' shoved where mv: "move rs (i - 1) (amt + (r_width (rs ! nat i) - m)) m = (rs', shoved)"
    by (metis surj_pair)
  have "length rs' = length rs" using move_length[of rs "i - 1" _ m] mv by (metis fst_conv)
  then have "nat i + 1 < length rs'" using shrink_shove by auto
  then show ?case using shrink_shove mv
    by (simp add: move_shrink_shove Let_def shift_sum)
next
  case (grow_direct i amt)
  then have "nat i + 1 < length rs" by auto
  then show ?case using grow_direct by (simp add: move_grow_direct shift_sum)
next
  case (shrink_direct i amt)
  then have "nat i + 1 < length rs" by auto
  then show ?case using shrink_direct by (simp add: move_shrink_direct shift_sum)
qed (simp_all add: move_out move_zero)

lemma move_keeps:
  "map r_start (fst (move rs i amt m)) = map r_start rs \<and>
   map r_end (fst (move rs i amt m)) = map r_end rs \<and>
   map r_chr (fst (move rs i amt m)) = map r_chr rs"
proof (induction i amt rule: move_induct[where rs = rs and m = m])
  case (grow_shove i amt)
  then show ?case by (auto simp: move_grow_shove Let_def shift_keeps split: prod.splits)
next
  case (shrink_shove i amt)
  then show ?case by (auto simp: move_shrink_shove Let_def shift_keeps split: prod.splits)
qed (simp_all add: move_out move_zero move_grow_direct move_shrink_direct shift_keeps)

lemma moveBorder_cases:
  obtains (stale) "moveBorder strips r1 amt = strips"
  | (found) si ri where "si < length strips"
      "moveBorder strips r1 amt
         = strips[si := (strips ! si)\<lparr>s_regions := fst (move (s_regions (strips ! si)) (int ri) amt 25)\<rparr>]"
  by (cases "findRegion strips r1") (auto simp: moveBorder_def dest: findRegion_Some)

lemma map_update_same_at: "i < length xs \<Longrightarrow> f y = f (xs ! i) \<Longrightarrow> map f (xs[i := y]) = map f xs"
  by (metis list_update_id map_update)

lemmas move_eval = moveBorder_def findRegion_def findStrip_def stripA_def regionA_def
  rawRegion_def move.simps shift_def Let_def

lemma moveBorder_example:
  "map (\<lambda>s. map r_width (s_regions s)) (moveBorder [stripA [100, 30, 100]] (regionA 0 100) 20)
     = [[120, 25, 85]]"
  by (simp add: move_eval)

lemma length_absorb: "length (absorb m e ws) = length ws"
  by (induction ws arbitrary: e) (simp_all add: Let_def)

lemma absorb_zero: "\<forall>w\<in>set ws. m \<le> w \<Longrightarrow> absorb m 0 ws = ws"
  by (induction ws) (simp_all add: Let_def min_def)

lemma absorbed_Nil: "absorbed m e [] = 0"
  by (simp add: absorbed_def)

lemma absorb_direct:
  "\<forall>w\<in>set ws. m \<le> w \<Longrightarrow> 0 \<le> e \<Longrightarrow> e \<le> b - m \<Longrightarrow> absorb m e (b # ws) = (b - e) # ws"
  by (simp add: Let_def min_def absorb_zero)

lemma absorbed_direct:
  "\<forall>w\<in>set ws. m \<le> w \<Longrightarrow> 0 \<le> e \<Longrightarrow> e \<le> b - m \<Longrightarrow> absorbed m e (b # ws) = e"
  by (simp add: absorbed_def Let_def min_def absorb_zero)

lemma absorb_shove:
  "b - m < e \<Longrightarrow> absorb m e (b # ws) = m # absorb m (e - (b - m)) ws"
  by (simp add: Let_def min_def)

lemma absorbed_shove:
  "b - m < e \<Longrightarrow> absorbed m e (b # ws) = b - m + absorbed m (e - (b - m)) ws"
  by (simp add: absorbed_def Let_def min_def)

lemma split_at_border:
  assumes "k + 1 < length ws"
  obtains pre a b post where "ws = pre @ a # b # post" "length pre = k"
proof
  show "ws = take k ws @ ws ! k # ws ! (k + 1) # drop (k + 2) ws"
    using assms by (metis Cons_nth_drop_Suc Suc_eq_plus1 Suc_lessD add_2_eq_Suc' id_take_nth_drop)
  show "length (take k ws) = k" using assms by simp
qed

lemma move_widths_shift:
  assumes "length rs' = length ws" "map r_width rs' = ws'" "k + 1 < length ws"
  shows "map r_width (shift rs' k a) = ws'[k := ws' ! k + a, k + 1 := ws' ! (k + 1) - a]"
proof -
  have "k + 1 < length rs'" using assms by simp
  then show ?thesis using assms(2) by (auto simp: shift_widths)
qed

lemma border_facts:
  assumes "ws = pre @ a # b # post" "length pre = k"
  shows "ws ! k = a" "ws ! (k + 1) = b" "take k ws = pre" "drop (k + 1) ws = b # post"
    "take (k + 1) ws = pre @ [a]" "drop (k + 2) ws = post"
    "ws[k := x, k + 1 := y] = pre @ x # y # post"
    "ws ! Suc k = b" "drop (Suc k) ws = b # post" "take (Suc k) ws = pre @ [a]"
    "drop (Suc (Suc k)) ws = post"
  using assms by (simp_all add: nth_append list_update_append)

lemma move_grow:
  fixes rs :: "region list"
  defines "ws \<equiv> map r_width rs"
  assumes ge: "\<forall>w\<in>set ws. m \<le> w"
  shows "0 \<le> i \<Longrightarrow> i < int (length rs) \<Longrightarrow> 0 < amt \<Longrightarrow>
         map r_width (fst (move rs i amt m))
           = take (nat i) ws @ [ws ! nat i + absorbed m amt (drop (nat i + 1) ws)]
               @ absorb m amt (drop (nat i + 1) ws)
         \<and> snd (move rs i amt m) = absorbed m amt (drop (nat i + 1) ws)"
proof (induction i amt rule: move_induct[where rs = rs and m = m])
  case (out i amt)
  have lenrs: "length rs = length ws" by (simp add: ws_def)
  have last: "nat i + 1 = length ws" using out lenrs by auto
  then have "ws = take (nat i) ws @ [ws ! nat i]"
    by (metis Suc_eq_plus1 lessI take_Suc_conv_app_nth take_all_iff le_refl)
  moreover have "drop (nat i + 1) ws = []" using last by simp
  moreover have "map r_width rs = ws" by (simp add: ws_def)
  ultimately show ?case using out(1) by (simp add: move_out absorbed_Nil)
next
  case (zero i)
  then show ?case by simp
next
  case (grow_direct i amt)
  let ?k = "nat i"
  have wsm: "map r_width rs = ws" and lenrs: "length rs = length ws" by (simp_all add: ws_def)
  have k: "?k + 1 < length ws" using grow_direct lenrs by auto
  obtain pre a b post where w: "ws = pre @ a # b # post" "length pre = ?k"
    using split_at_border[OF k] by blast
  note bf = border_facts[OF w]
  have k1: "nat (i + 1) = ?k + 1" using grow_direct(1) by simp
  have "?k + 1 < length rs" using k by (simp only: lenrs)
  then have "ws ! (?k + 1) = r_width (rs ! (?k + 1))" unfolding ws_def by (rule nth_map)
  then have b: "r_width (rs ! nat (i + 1)) = b" using bf(2) by (simp only: k1)
  have post: "\<forall>x\<in>set post. m \<le> x" using ge w(1) by simp
  have e: "0 \<le> amt" "amt \<le> b - m" using grow_direct(3,4) b by simp_all
  have "map r_width (shift rs ?k amt) = pre @ (a + amt) # (b - amt) # post"
    using move_widths_shift[OF lenrs wsm k, of amt] by (simp only: bf)
  then show ?case
    by (simp add: move_grow_direct[OF grow_direct(1-4)] bf absorb_direct[OF post e]
        absorbed_direct[OF post e] del: absorb.simps)
next
  case (grow_shove i amt)
  let ?k = "nat i"
  have wsm: "map r_width rs = ws" and lenrs: "length rs = length ws" by (simp_all add: ws_def)
  have k: "?k + 1 < length ws" using grow_shove lenrs by auto
  obtain pre a b post where w: "ws = pre @ a # b # post" "length pre = ?k"
    using split_at_border[OF k] by blast
  note bf = border_facts[OF w]
  have k1: "nat (i + 1) = ?k + 1" using grow_shove(1) by simp
  have "?k + 1 < length rs" using k by (simp only: lenrs)
  then have "ws ! (?k + 1) = r_width (rs ! (?k + 1))" unfolding ws_def by (rule nth_map)
  then have b: "r_width (rs ! nat (i + 1)) = b" using bf(2) by (simp only: k1)
  have lt: "b - m < amt" using grow_shove(4) b by simp
  let ?shove = "amt - (b - m)"
  obtain rs' shoved where mv: "move rs (i + 1) ?shove m = (rs', shoved)" by (metis surj_pair)
  have len': "length rs' = length ws"
    using move_length[of rs "i + 1" ?shove m] mv lenrs by simp
  have "map r_width (fst (move rs (i + 1) ?shove m))
          = take (?k + 1) ws @ [ws ! (?k + 1) + absorbed m ?shove (drop (?k + 2) ws)]
              @ absorb m ?shove (drop (?k + 2) ws)
        \<and> snd (move rs (i + 1) ?shove m) = absorbed m ?shove (drop (?k + 2) ws)"
    using grow_shove.IH grow_shove(1,2) lt b k1 by (simp add: add.commute)
  then have IH: "map r_width rs' = (pre @ [a]) @ [b + absorbed m ?shove post] @ absorb m ?shove post"
    "shoved = absorbed m ?shove post"
    using mv by (simp_all add: bf)
  have nth': "map r_width rs' ! ?k = a" "map r_width rs' ! (?k + 1) = b + absorbed m ?shove post"
    "map r_width rs' ! Suc ?k = b + absorbed m ?shove post"
    using w(2) by (simp_all add: IH(1) nth_append)
  have upd: "(map r_width rs')[?k := x, ?k + 1 := y] = pre @ x # y # absorb m ?shove post"
    "(map r_width rs')[?k := x, Suc ?k := y] = pre @ x # y # absorb m ?shove post" for x y
    using w(2) by (simp_all add: IH(1) list_update_append)
  have "map r_width (shift rs' ?k (b - m + shoved))
          = pre @ (a + (b - m + shoved)) # m # absorb m ?shove post"
    using move_widths_shift[OF len' refl k, of "b - m + shoved"]
    by (simp add: nth' upd IH(2))
  then show ?case
    using mv
    by (simp add: move_grow_shove[OF grow_shove(1-4)] b bf Let_def absorb_shove[OF lt]
        absorbed_shove[OF lt] IH(2) del: absorb.simps)
next
  case (shrink_direct i amt)
  then show ?case by simp
next
  case (shrink_shove i amt)
  then show ?case by simp
qed

lemma move_shrink:
  fixes rs :: "region list"
  defines "ws \<equiv> map r_width rs"
  assumes ge: "\<forall>w\<in>set ws. m \<le> w"
  shows "- 1 \<le> i \<Longrightarrow> i + 1 < int (length rs) \<Longrightarrow> amt < 0 \<Longrightarrow>
         map r_width (fst (move rs i amt m))
           = rev (absorb m (- amt) (rev (take (nat (i + 1)) ws)))
               @ [ws ! nat (i + 1) + absorbed m (- amt) (rev (take (nat (i + 1)) ws))]
               @ drop (nat (i + 1) + 1) ws
         \<and> snd (move rs i amt m) = - absorbed m (- amt) (rev (take (nat (i + 1)) ws))"
proof (induction i amt rule: move_induct[where rs = rs and m = m])
  case (out i amt)
  have wsm: "map r_width rs = ws" and lenrs: "length rs = length ws" by (simp_all add: ws_def)
  have i: "i = - 1" using out by auto
  have "ws \<noteq> []" using out(3) lenrs i by auto
  then have "ws = [ws ! 0] @ drop 1 ws" by (cases ws) simp_all
  then show ?case using i wsm by (simp add: move_out absorbed_Nil)
next
  case (zero i)
  then show ?case by simp
next
  case (grow_direct i amt)
  then show ?case by simp
next
  case (grow_shove i amt)
  then show ?case by simp
next
  case (shrink_direct i amt)
  let ?k = "nat i"
  have wsm: "map r_width rs = ws" and lenrs: "length rs = length ws" by (simp_all add: ws_def)
  have k: "?k + 1 < length ws" using shrink_direct lenrs by auto
  obtain pre a b post where w: "ws = pre @ a # b # post" "length pre = ?k"
    using split_at_border[OF k] by blast
  note bf = border_facts[OF w]
  have k1: "nat (i + 1) = ?k + 1" using shrink_direct(1) by simp
  have "?k < length rs" using k by (simp only: lenrs)
  then have "ws ! ?k = r_width (rs ! ?k)" unfolding ws_def by (rule nth_map)
  then have a: "r_width (rs ! nat i) = a" using bf(1) by simp
  have pre: "\<forall>x\<in>set (rev pre). m \<le> x" using ge w(1) by simp
  have e: "0 \<le> - amt" "- amt \<le> a - m" using shrink_direct(3,4) a by simp_all
  have "map r_width (shift rs ?k amt) = pre @ (a + amt) # (b - amt) # post"
    using move_widths_shift[OF lenrs wsm k, of amt] by (simp only: bf)
  then show ?case
    by (simp add: move_shrink_direct[OF shrink_direct(1-4)] k1 bf absorb_direct[OF pre e]
        absorbed_direct[OF pre e] del: absorb.simps)
next
  case (shrink_shove i amt)
  let ?k = "nat i"
  have wsm: "map r_width rs = ws" and lenrs: "length rs = length ws" by (simp_all add: ws_def)
  have k: "?k + 1 < length ws" using shrink_shove lenrs by auto
  obtain pre a b post where w: "ws = pre @ a # b # post" "length pre = ?k"
    using split_at_border[OF k] by blast
  note bf = border_facts[OF w]
  have k1: "nat (i + 1) = ?k + 1" using shrink_shove(1) by simp
  have k0: "nat (i - 1 + 1) = ?k" by simp
  have "?k < length rs" using k by (simp only: lenrs)
  then have "ws ! ?k = r_width (rs ! ?k)" unfolding ws_def by (rule nth_map)
  then have a: "r_width (rs ! nat i) = a" using bf(1) by simp
  have lt: "a - m < - amt" using shrink_shove(4) a by simp
  let ?shove = "amt + (a - m)"
  have ns: "- amt - (a - m) = m - a - amt" by simp
  obtain rs' shoved where mv: "move rs (i - 1) ?shove m = (rs', shoved)" by (metis surj_pair)
  have len': "length rs' = length ws"
    using move_length[of rs "i - 1" ?shove m] mv lenrs by simp
  let ?X = "absorb m (- ?shove) (rev pre)"
  let ?A = "absorbed m (- ?shove) (rev pre)"
  have "map r_width (fst (move rs (i - 1) ?shove m))
          = rev (absorb m (- ?shove) (rev (take ?k ws)))
              @ [ws ! ?k + absorbed m (- ?shove) (rev (take ?k ws))] @ drop (?k + 1) ws
        \<and> snd (move rs (i - 1) ?shove m) = - absorbed m (- ?shove) (rev (take ?k ws))"
    using shrink_shove.IH shrink_shove(1,2) lt a by (simp only: k0)
  then have IH: "map r_width rs' = rev ?X @ [a + ?A] @ b # post" "shoved = - ?A"
    using mv by (simp_all add: bf)
  have lenX: "length (rev ?X) = ?k" using w(2) by (simp add: length_absorb)
  have nth': "map r_width rs' ! ?k = a + ?A" "map r_width rs' ! (?k + 1) = b"
    "map r_width rs' ! Suc ?k = b"
    using lenX by (simp_all add: IH(1) nth_append del: length_rev)
  have upd: "(map r_width rs')[?k := x, ?k + 1 := y] = rev ?X @ x # y # post"
    "(map r_width rs')[?k := x, Suc ?k := y] = rev ?X @ x # y # post" for x y
    using lenX by (simp_all add: IH(1) list_update_append del: length_rev)
  have "map r_width (shift rs' ?k (shoved - (a - m)))
          = rev ?X @ m # (b + (a - m + ?A)) # post"
    using move_widths_shift[OF len' refl k, of "shoved - (a - m)"]
    by (simp add: nth' upd IH(2))
  then show ?case
    using mv
    by (simp add: move_shrink_shove[OF shrink_shove(1-4)] a k1 bf Let_def absorb_shove[OF lt]
        absorbed_shove[OF lt] IH(2) ns del: absorb.simps)
qed

lemma moveBorder_found:
  "findRegion strips r1 = Some (si, ri) \<Longrightarrow>
   s_regions (moveBorder strips r1 amt ! si)
     = fst (move (s_regions (strips ! si)) (int ri) amt 25)"
  by (auto simp: moveBorder_def dest: findRegion_Some)



section \<open>combineRegions: helper lemmas\<close>

lemma combineStep_snoc:
  "combineStep (acc @ [cur]) r =
     (if b_index cur = b_index r then acc @ [cur]
      else if b_index cur + 1 = b_index r
      then acc @ [cur\<lparr>b_end := b_end r, b_index := b_index r\<rparr>]
      else acc @ [cur, r])"
  by (simp add: combineStep_def)

lemma foldl_combineStep_groups:
  "foldl combineStep (acc @ [cur]) rs = acc @ groups cur rs"
proof (induction rs arbitrary: acc cur)
  case Nil
  then show ?case by simp
next
  case (Cons r rs)
  show ?case
  proof (cases "b_index cur = b_index r")
    case True
    then show ?thesis using Cons.IH[of acc cur] by (simp add: combineStep_snoc)
  next
    case False
    show ?thesis
    proof (cases "b_index cur + 1 = b_index r")
      case True
      then show ?thesis
        using False Cons.IH[of acc "cur\<lparr>b_end := b_end r, b_index := b_index r\<rparr>"]
        by (simp add: combineStep_snoc)
    next
      case nxt: False
      have "foldl combineStep ((acc @ [cur]) @ [r]) rs = (acc @ [cur]) @ groups r rs"
        by (rule Cons.IH)
      then show ?thesis using False nxt by (simp add: combineStep_snoc)
    qed
  qed
qed

lemma combineStep_Nil: "combineStep [] r = [r]"
  by (simp add: combineStep_def)



section \<open>guessLandmarkRegion: helper lemmas\<close>

lemma neighborWindows_same:
  "f_chr ng1 = f_chr ng2 \<Longrightarrow>
   windows (fst (neighborWindows rCount lc genome ng1 ng2))
     = (let s = of_int \<lfloor>(min (f_start ng1) (f_start ng2) + max (f_end ng1) (f_end ng2)) / 2
                          - l_length lc / 2\<rfloor>
        in [(f_chr ng1, s, s + l_length lc - 1)])"
  by (simp add: windows_def neighborWindows_def makeRegion_def coords_def Let_def)

lemma neighborWindows_other:
  "f_chr ng1 \<noteq> f_chr ng2 \<Longrightarrow>
   windows (fst (neighborWindows rCount lc genome ng1 ng2))
     = (let s1 = of_int \<lfloor>f_start ng1 - l_length lc / 2\<rfloor>;
            s2 = of_int \<lfloor>f_start ng2 - l_length lc / 2\<rfloor>
        in [(f_chr ng1, s1, s1 + l_length lc - 1), (f_chr ng2, s2, s2 + l_length lc - 1)])"
  by (simp add: windows_def neighborWindows_def rawRegion_def Let_def)

lemma guess_cases:
  fixes dm :: dataManager and lc :: lcoords and genome :: genome and lmf :: feature
  assumes "dm_getGenologOfId dm (l_landmark lc) (l_lgenome lc) = Some lmf"
  defines "neighbors \<equiv> dm_getAllFeaturesNow dm (l_lgenome lc) (f_chr lmf)"
  defines "lmi \<equiv> (case indexOf neighbors lmf of None \<Rightarrow> - 1 | Some k \<Rightarrow> int k)"
  defines "ng1 \<equiv> findNeighborGenolog dm lmf genome (- 1) (rev (take (nat lmi) neighbors))"
  defines "ng2 \<equiv> findNeighborGenolog dm lmf genome 1 (drop (nat (lmi + 1)) neighbors)"
  shows "guessLandmarkRegion dm rCount lc genome =
     (case (ng1, ng2) of
        (None, None) \<Rightarrow> Inr (None, rCount)
      | (None, Some n2) \<Rightarrow> Inr (Some (fst (neighborWindows rCount lc genome n2 n2)),
                                snd (neighborWindows rCount lc genome n2 n2))
      | (Some n1, None) \<Rightarrow> Inr (Some (fst (neighborWindows rCount lc genome n1 n1)),
                                snd (neighborWindows rCount lc genome n1 n1))
      | (Some n1, Some n2) \<Rightarrow> Inr (Some (fst (neighborWindows rCount lc genome n1 n2)),
                                   snd (neighborWindows rCount lc genome n1 n2)))"
  using assms(1) unfolding ng1_def ng2_def lmi_def neighbors_def
  by (simp add: guessLandmarkRegion_def Let_def split: option.splits prod.splits)

lemmas guess_eval = guessLandmarkRegion_def neighborWindows_def makeRegion_def coords_def
  rawRegion_def storeB_def landmarkL_def featL_def featN1_def featN2_def featureOn_def
  genomeA_def genomeB_def chr1_def chr2_def Let_def

lemma guess_right_only:
  "guessLandmarkRegion (storeB None (Some (featureOn ''N2b'' genomeB chr2 5000 e))) 0 landmarkL genomeB
     = Inr (Some \<lparr>s_genome = genomeB, s_regions =
              [\<lparr>r_genome = genomeB, r_chr = chr2,
                r_start = of_int \<lfloor>(5000 + e) / 2 - 500\<rfloor>,
                r_end = of_int \<lfloor>(5000 + e) / 2 - 500\<rfloor> + 999,
                r_width = 1, r_deltaX = 0, r_reversed = False, r_id = Some 0,
                r_index = None, r_length = None\<rparr>]\<rparr>, 1)"
  by (simp add: guess_eval)

lemma neighborWindows_genome: "s_genome (fst (neighborWindows rCount lc genome ng1 ng2)) = genome"
  by (simp add: neighborWindows_def Let_def split: prod.splits)

lemma computeLandmarkRegion_absent:
  "List.map_filter (\<lambda>x. x) (dm_getGenologs dm (l_landmark lc) [genome]) = [] \<Longrightarrow>
   computeLandmarkRegion alignOn dm rCount lc genome = guessLandmarkRegion dm rCount lc genome"
  by (simp add: computeLandmarkRegion_def Let_def)



section \<open>addStrip: evaluation\<close>

lemmas strip_eval = addStrip_def initialStrip_def landmarkOf_def addRegion_def makeRegion_def
  coords_def findStrip_def emptyApp_def windows_def genomeA_def genomeB_def chr1_def chr2_def



section \<open>The navigation modes: helper lemmas\<close>

lemma computeMappedRegions_modes:
  "a_rRegion (computeMappedRegions translate st r genomes) = Some r \<and>
   a_scrollLock (computeMappedRegions translate st r genomes) = False \<and>
   a_lcoords (computeMappedRegions translate st r genomes) = None"
  by (simp add: computeMappedRegions_def Let_def split: prod.splits)

lemma alignOnLandmark_modes:
  "alignOnLandmark alignOn dm st lc genomes = Inr st' \<Longrightarrow>
   a_rRegion st' = None \<and> a_scrollLock st' = True \<and> a_lcoords st' = Some lc"
  by (auto simp: alignOnLandmark_def Let_def split: sum.splits prod.splits if_splits)

lemma deleteStrip_modes:
  "a_scrollLock (deleteStrip st g) = a_scrollLock st \<and>
   a_lcoords (deleteStrip st g) = a_lcoords st \<and>
   (a_rRegion (deleteStrip st g) = a_rRegion st \<or> a_rRegion (deleteStrip st g) = None)"
  by (simp add: deleteStrip_def split: option.splits)

lemma addStrip_modes:
  "addStrip alignOn dm translate st g r = Inr st' \<Longrightarrow>
   a_scrollLock st' = a_scrollLock st \<and> a_lcoords st' = a_lcoords st \<and> a_rRegion st' = a_rRegion st"
  by (auto simp: addStrip_def split: sum.splits prod.splits option.splits)

lemma zoomScrollAllRegions_modes:
  "zoomScrollAllRegions st zAmt sAmt = Inr st' \<Longrightarrow>
   a_scrollLock st' = a_scrollLock st \<and> a_rRegion st' = a_rRegion st \<and>
   landmarkMode st' = landmarkMode st"
  by (auto simp: zoomScrollAllRegions_def landmarkMode_def landmarkOf_def Let_def
      split: sum.splits option.splits if_splits)

lemma reachable_consistent:
  "reachable alignOn dm translate st \<Longrightarrow> modesConsistent st"
proof (induction rule: reachable.induct)
  case (start st)
  then show ?case
    by (auto simp: modesConsistent_def activeModes_def split: if_splits)
next
  case (mapped st r genomes)
  show ?case using computeMappedRegions_modes[of translate st r genomes]
    by (simp add: modesConsistent_def referenceMode_def lockedMode_def landmarkMode_def)
next
  case (aligned st lc genomes st')
  show ?case using alignOnLandmark_modes[OF aligned(2)]
    by (simp add: modesConsistent_def referenceMode_def lockedMode_def landmarkMode_def)
next
  case (deleted st g)
  then show ?case using deleteStrip_modes[of st g]
    by (auto simp: modesConsistent_def referenceMode_def lockedMode_def landmarkMode_def)
next
  case (added st g r st')
  then show ?case using addStrip_modes[OF added(2)]
    by (simp add: modesConsistent_def referenceMode_def lockedMode_def landmarkMode_def)
next
  case (zoomed st zAmt sAmt st')
  then show ?case using zoomScrollAllRegions_modes[OF zoomed(2)]
    by (simp add: modesConsistent_def referenceMode_def lockedMode_def)
next
  case (restripped st strips rCount)
  then show ?case
    by (simp add: modesConsistent_def referenceMode_def lockedMode_def landmarkMode_def)
next
  case (cleared st)
  then show ?case
    by (simp add: modesConsistent_def referenceMode_def lockedMode_def landmarkMode_def)
qed

lemmas align_eval = alignOnLandmark_def computeLandmarkRegion_def anchorPos_def makeRegion_def
  coords_def mergeUpdate_def storeB_def landmarkL_def featL_def featureOn_def emptyApp_def
  List.map_filter_def lockedMode_def referenceMode_def landmarkMode_def activeModes_def



section \<open>The navigation modes\<close>

text \<open>
  Claim C1 states that in every reachable state at most one of the three modes is
  active, Locked (\<open>scrollLock\<close> is true), Reference (\<open>rRegion\<close> is not null) and Landmark
  (\<open>lcoords.landmark\<close> is not null), and that \<open>computeMappedRegions\<close> and
  \<open>alignOnLandmark\<close>, which enter a mode, clear the other two. As stated the claim is
  false: \<open>alignOnLandmark\<close> sets the scroll lock together with the landmark, as its
  comment says. From the state with no strip and no mode, aligning on the landmark
  \<open>L\<close> gives a state with two modes active, Locked and Landmark.
\<close>

theorem modes_exclusive_counterexample:
  "activeModes emptyApp = 0
   \<and> map_sum id lockedMode
        (alignOnLandmark ''5-prime'' (storeB None None) emptyApp landmarkL (Some [genomeA]))
       = Inr True
   \<and> map_sum id landmarkMode
        (alignOnLandmark ''5-prime'' (storeB None None) emptyApp landmarkL (Some [genomeA]))
       = Inr True
   \<and> map_sum id activeModes
        (alignOnLandmark ''5-prime'' (storeB None None) emptyApp landmarkL (Some [genomeA]))
       = Inr 2"
  by (simp add: align_eval)

text \<open>
  Claim C1, amended. \<open>computeMappedRegions\<close> enters the Reference mode and clears Locked
  and Landmark. \<open>alignOnLandmark\<close>, when it completes, clears the Reference mode, enters
  the Landmark mode (for a landmark that is not null) and switches the lock on. In
  every state that the RegionManager's operations reach from a state with no mode
  active, the Reference mode excludes the other two, and the Landmark mode is active
  only together with Locked.
\<close>

theorem modes_exclusive:
  "(let st' = computeMappedRegions translate st r genomes
    in referenceMode st' \<and> \<not> lockedMode st' \<and> \<not> landmarkMode st')
   \<and> (alignOnLandmark alignOn dm st lc genomes' = Inr st'' \<longrightarrow>
        \<not> referenceMode st'' \<and> lockedMode st'' \<and> (landmarkMode st'' \<longleftrightarrow> l_landmark lc \<noteq> None))
   \<and> (reachable alignOn dm translate st \<longrightarrow>
        (referenceMode st \<longrightarrow> \<not> lockedMode st \<and> \<not> landmarkMode st) \<and>
        (landmarkMode st \<longrightarrow> lockedMode st))"
proof (intro conjI impI)
  show "let st' = computeMappedRegions translate st r genomes
    in referenceMode st' \<and> \<not> lockedMode st' \<and> \<not> landmarkMode st'"
    using computeMappedRegions_modes[of translate st r genomes]
    by (simp add: Let_def referenceMode_def lockedMode_def landmarkMode_def)
next
  assume a: "alignOnLandmark alignOn dm st lc genomes' = Inr st''"
  show "\<not> referenceMode st''" "lockedMode st''"
    "landmarkMode st'' \<longleftrightarrow> l_landmark lc \<noteq> None"
    using alignOnLandmark_modes[OF a]
    by (simp_all add: referenceMode_def lockedMode_def landmarkMode_def)
next
  assume "reachable alignOn dm translate st"
  then have c: "modesConsistent st" by (rule reachable_consistent)
  { assume "referenceMode st"
    then show "\<not> lockedMode st" "\<not> landmarkMode st" using c by (simp_all add: modesConsistent_def)
  next
    assume "landmarkMode st"
    then show "lockedMode st" using c by (simp add: modesConsistent_def)
  }
qed

theorem modes_exclusive_witness:
  "referenceMode (computeMappedRegions noBlocks emptyApp (regionA 0 1) (Some [genomeA]))
   \<and> \<not> lockedMode (computeMappedRegions noBlocks emptyApp (regionA 0 1) (Some [genomeA]))
   \<and> \<not> landmarkMode (computeMappedRegions noBlocks emptyApp (regionA 0 1) (Some [genomeA]))
   \<and> (\<exists>st'. alignOnLandmark ''5-prime'' (storeB None None) emptyApp landmarkL (Some [genomeA])
               = Inr st'
             \<and> lockedMode st' \<and> landmarkMode st' \<and> \<not> referenceMode st')"
proof -
  let ?st1 = "computeMappedRegions noBlocks emptyApp (regionA 0 1) (Some [genomeA])"
  have r0: "reachable ''5-prime'' (storeB None None) noBlocks emptyApp"
    by (rule reachable.start)
      (simp add: activeModes_def lockedMode_def referenceMode_def landmarkMode_def emptyApp_def)
  have r1: "reachable ''5-prime'' (storeB None None) noBlocks ?st1"
    by (rule reachable.mapped[OF r0])
  obtain st' where al: "alignOnLandmark ''5-prime'' (storeB None None) emptyApp landmarkL
                          (Some [genomeA]) = Inr st'"
    by (simp add: alignOnLandmark_def computeLandmarkRegion_def anchorPos_def makeRegion_def
        coords_def storeB_def landmarkL_def List.map_filter_def)
  have lm: "l_landmark landmarkL \<noteq> None" by (simp add: landmarkL_def)
  have a: "referenceMode ?st1"
    using modes_exclusive[of noBlocks emptyApp "regionA 0 1" "Some [genomeA]", THEN conjunct1]
    by (simp add: Let_def)
  have b: "\<not> lockedMode ?st1 \<and> \<not> landmarkMode ?st1"
    using modes_exclusive[where st = ?st1 and alignOn = "''5-prime''" and dm = "storeB None None"
        and translate = noBlocks, THEN conjunct2, THEN conjunct2] r1 a
    by blast
  have c: "lockedMode st' \<and> landmarkMode st' \<and> \<not> referenceMode st'"
    using modes_exclusive[where alignOn = "''5-prime''" and dm = "storeB None None"
        and st = emptyApp and lc = landmarkL and genomes' = "Some [genomeA]" and st'' = st',
        THEN conjunct2, THEN conjunct1] al lm
    by blast
  show ?thesis using a b c al by blast
qed


section \<open>Well-formedness of regions\<close>






section \<open>The layout sum property\<close>






section \<open>The coordinate arithmetic of zoomScrollRegion\<close>

text \<open>
  Claim C4: for every region, every zoom factor above 0 and every scroll factor, with
  \<open>L = end - start + 1\<close>, \<open>L2 = zoomFactor \<times> L\<close>,
  \<open>delta = scrollFactor \<times> max L L2 \<times> (-1 if reversed else +1)\<close> and
  \<open>mid = (start + end) / 2\<close>, \<open>zoomScrollRegion\<close> returns the region with start
  \<open>floor (mid - L2 / 2 + delta + 1)\<close> and end \<open>floor (newStart + L2 - 1)\<close>; on
  \<open>[1000, 2000]\<close> with zoom factor \<open>1/2\<close> and scroll factor 0 it yields start 1250 and
  end 1749. The hypothesis \<open>start \<le> end\<close> of the claim is not needed.
\<close>

theorem zoomScrollRegion_math:
  "(\<forall>r zAmt sAmt. 0 < zAmt \<longrightarrow>
      (let L = r_end r - r_start r + 1;
           L2 = zAmt * L;
           delta = sAmt * max L L2 * (if r_reversed r then - 1 else 1);
           mid = (r_start r + r_end r) / 2;
           newStart = of_int \<lfloor>mid - L2 / 2 + delta + 1\<rfloor>;
           newEnd = of_int \<lfloor>newStart + L2 - 1\<rfloor>
       in zoomScrollRegion r zAmt sAmt = Inr (r\<lparr>r_start := newStart, r_end := newEnd\<rparr>)))
   \<and> zoomScrollRegion (rawRegion genomeA chr1 1000 2000 1) (1 / 2) 0
       = Inr ((rawRegion genomeA chr1 1000 2000 1)\<lparr>r_start := 1250, r_end := 1749\<rparr>)"
  by (simp add: zoomScrollRegion_def Let_def rawRegion_def)

theorem zoomScrollRegion_math_witness:
  "zoomScrollRegion (rawRegion genomeB chr2 1000 2000 1) (1 / 2) 0
     = Inr ((rawRegion genomeB chr2 1000 2000 1)\<lparr>r_start := 1250, r_end := 1749\<rparr>)"
proof -
  have pos: "(0::real) < 1 / 2" by simp
  from zoomScrollRegion_math[THEN conjunct1, rule_format, OF pos,
      of "rawRegion genomeB chr2 1000 2000 1" 0]
  show ?thesis by (simp add: Let_def rawRegion_def)
qed



section \<open>The initial region of addStrip\<close>

text \<open>
  Claim C5 gives the policy of \<open>addStrip\<close> for the initial region of a new strip: the
  landmark windows when a landmark is active, else the mapping of the reference region
  when there is one, else the region passed as argument, else the first chromosome's
  window from 1 to the smaller of 10000000 and its length. The comment above
  \<open>addStrip\<close> also says that a region given as argument is used, and \<open>addRegion\<close> passes
  one; but the body of \<open>addStrip\<close> never reads its second parameter. Its result is the
  same with and without a region, and with no landmark and no reference a region on
  chromosome 2 from 500 to 600, passed to \<open>addStrip\<close> or, for a genome without a strip,
  to \<open>addRegion\<close>, gives the strip the default window of chromosome 1 instead.
\<close>

theorem addStrip_ignores_region:
  "addStrip alignOn dm translate st g r = addStrip alignOn dm translate st g None
   \<and> map_sum id (map windows \<circ> a_strips)
        (addStrip ''5-prime'' (storeB None None) noBlocks emptyApp genomeA
           (Some (rawRegion genomeA chr2 500 600 1)))
       = Inr [[(chr1, 1, 10000000)]]
   \<and> map_sum id (map windows \<circ> a_strips)
        (addRegion ''5-prime'' (storeB None None) noBlocks emptyApp
           (coords genomeA chr2 500 600) False)
       = Inr [[(chr1, 1, 10000000)]]"
proof (intro conjI)
  show "addStrip alignOn dm translate st g r = addStrip alignOn dm translate st g None"
    by (simp add: addStrip_def initialStrip_def)
  show "map_sum id (map windows \<circ> a_strips)
        (addStrip ''5-prime'' (storeB None None) noBlocks emptyApp genomeA
           (Some (rawRegion genomeA chr2 500 600 1)))
       = Inr [[(chr1, 1, 10000000)]]"
    by (simp add: strip_eval layout_eval)
  show "map_sum id (map windows \<circ> a_strips)
        (addRegion ''5-prime'' (storeB None None) noBlocks emptyApp
           (coords genomeA chr2 500 600) False)
       = Inr [[(chr1, 1, 10000000)]]"
    by (simp add: strip_eval layout_eval)
qed

theorem addStrip_ignores_region_witness:
  "addStrip ''5-prime'' (storeB None None) noBlocks emptyApp genomeA
           (Some (rawRegion genomeA chr2 500 600 1))
     = addStrip ''5-prime'' (storeB None None) noBlocks emptyApp genomeA None"
  using addStrip_ignores_region[of "''5-prime''" "storeB None None" noBlocks emptyApp genomeA
      "Some (rawRegion genomeA chr2 500 600 1)"]
  by blast


section \<open>The fallback of guessLandmarkRegion\<close>

text \<open>
  Claim C6 describes \<open>guessLandmarkRegion\<close>, which places the window of a genome that has
  no counterpart of the landmark: no neighbour with a counterpart gives an empty
  result, one side alone serves for both, two counterparts on one chromosome give one
  region of the landmark length centred on the middle of their joint extent, two on
  different chromosomes give two regions of that length; and, in particular, with no
  left counterpart and the right neighbour's counterpart on chromosome 2 at start 5000
  with length 1000, the result is the region from 4500 to 5499. That last part is
  false as stated: the one counterpart is used for both sides, so the window is centred
  on the middle of the counterpart, not on its start. With the counterpart from 5000
  to 6000 the region runs from 5000 to 5999.
\<close>

theorem guessLandmarkRegion_fallback_counterexample:
  "dm_getGenologs (storeB None (Some (featureOn ''N2b'' genomeB chr2 5000 6000)))
       (l_landmark landmarkL) [genomeB] = [None]
   \<and> dm_getGenolog (storeB None (Some (featureOn ''N2b'' genomeB chr2 5000 6000))) featN1 genomeB
       = None
   \<and> dm_getGenolog (storeB None (Some (featureOn ''N2b'' genomeB chr2 5000 6000))) featN2 genomeB
       = Some (featureOn ''N2b'' genomeB chr2 5000 6000)
   \<and> l_length landmarkL = 1000
   \<and> map_sum id (map_option windows \<circ> fst)
        (computeLandmarkRegion ''5-prime''
           (storeB None (Some (featureOn ''N2b'' genomeB chr2 5000 6000))) 0 landmarkL genomeB)
       = Inr (Some [(chr2, 5000, 5999)])
   \<and> [(chr2, 5000, 5999)] \<noteq> [(chr2, 4500, 5499 :: real)]"
  by (simp add: computeLandmarkRegion_def List.map_filter_def guess_eval windows_def)

text \<open>
  Claim C6, amended. When the landmark has no counterpart in the genome,
  \<open>computeLandmarkRegion\<close> is \<open>guessLandmarkRegion\<close>. With the landmark known in its own
  genome: if neither walk finds a counterpart the result is empty and no error; if one
  walk alone finds a counterpart \<open>n\<close>, the result is the one region of the landmark
  length that starts at \<open>floor ((n.start + n.end) / 2 - length / 2)\<close>; if both find one on
  the same chromosome, it is the one region of that length starting at
  \<open>floor ((min of the starts + max of the ends) / 2 - length / 2)\<close>; if on different
  chromosomes, it is two regions of that length, each starting at
  \<open>floor (start of its own counterpart - length / 2)\<close>. With no left counterpart and
  the right neighbour's counterpart on chromosome 2 from 5000 to \<open>e\<close>, and length 1000,
  the result is the one region of chromosome 2 from \<open>floor ((5000 + e) / 2 - 500)\<close> to
  that plus 999; it is the region from 4500 to 5499 when \<open>e\<close> is 5000 or 5001.
\<close>

theorem guessLandmarkRegion_fallback:
  "(List.map_filter (\<lambda>x. x) (dm_getGenologs dm (l_landmark lc) [genome]) = [] \<longrightarrow>
      computeLandmarkRegion alignOn dm rCount lc genome = guessLandmarkRegion dm rCount lc genome)
   \<and> (dm_getGenologOfId dm (l_landmark lc) (l_lgenome lc) = Some lmf \<longrightarrow>
       (let neighbors = dm_getAllFeaturesNow dm (l_lgenome lc) (f_chr lmf);
            lmi = (case indexOf neighbors lmf of None \<Rightarrow> - 1 | Some k \<Rightarrow> int k);
            ng1 = findNeighborGenolog dm lmf genome (- 1) (rev (take (nat lmi) neighbors));
            ng2 = findNeighborGenolog dm lmf genome 1 (drop (nat (lmi + 1)) neighbors);
            len = l_length lc
        in (ng1 = None \<and> ng2 = None \<longrightarrow>
              guessLandmarkRegion dm rCount lc genome = Inr (None, rCount))
           \<and> (\<forall>n. ng1 = None \<and> ng2 = Some n \<or> ng1 = Some n \<and> ng2 = None \<longrightarrow>
                (\<exists>strip rCount'.
                   guessLandmarkRegion dm rCount lc genome = Inr (Some strip, rCount') \<and>
                   s_genome strip = genome \<and>
                   windows strip =
                     [(f_chr n, of_int \<lfloor>(f_start n + f_end n) / 2 - len / 2\<rfloor>,
                       of_int \<lfloor>(f_start n + f_end n) / 2 - len / 2\<rfloor> + len - 1)]))
           \<and> (\<forall>n1 n2. ng1 = Some n1 \<and> ng2 = Some n2 \<and> f_chr n1 = f_chr n2 \<longrightarrow>
                (\<exists>strip rCount'.
                   guessLandmarkRegion dm rCount lc genome = Inr (Some strip, rCount') \<and>
                   s_genome strip = genome \<and>
                   windows strip =
                     [(f_chr n1,
                       of_int \<lfloor>(min (f_start n1) (f_start n2) + max (f_end n1) (f_end n2)) / 2
                                 - len / 2\<rfloor>,
                       of_int \<lfloor>(min (f_start n1) (f_start n2) + max (f_end n1) (f_end n2)) / 2
                                 - len / 2\<rfloor> + len - 1)]))
           \<and> (\<forall>n1 n2. ng1 = Some n1 \<and> ng2 = Some n2 \<and> f_chr n1 \<noteq> f_chr n2 \<longrightarrow>
                (\<exists>strip rCount'.
                   guessLandmarkRegion dm rCount lc genome = Inr (Some strip, rCount') \<and>
                   s_genome strip = genome \<and>
                   windows strip =
                     [(f_chr n1, of_int \<lfloor>f_start n1 - len / 2\<rfloor>,
                       of_int \<lfloor>f_start n1 - len / 2\<rfloor> + len - 1),
                      (f_chr n2, of_int \<lfloor>f_start n2 - len / 2\<rfloor>,
                       of_int \<lfloor>f_start n2 - len / 2\<rfloor> + len - 1)]))))
   \<and> map_sum id (map_option windows \<circ> fst)
        (guessLandmarkRegion (storeB None (Some (featureOn ''N2b'' genomeB chr2 5000 e)))
           0 landmarkL genomeB)
       = Inr (Some [(chr2, of_int \<lfloor>(5000 + e) / 2 - 500\<rfloor>,
                     of_int \<lfloor>(5000 + e) / 2 - 500\<rfloor> + 999)])"
proof (intro conjI impI)
  assume "List.map_filter (\<lambda>x. x) (dm_getGenologs dm (l_landmark lc) [genome]) = []"
  then show "computeLandmarkRegion alignOn dm rCount lc genome
               = guessLandmarkRegion dm rCount lc genome"
    by (rule computeLandmarkRegion_absent)
next
  assume lm: "dm_getGenologOfId dm (l_landmark lc) (l_lgenome lc) = Some lmf"
  note g = guess_cases[OF lm, where genome = genome and rCount = rCount]
  show "let neighbors = dm_getAllFeaturesNow dm (l_lgenome lc) (f_chr lmf);
            lmi = (case indexOf neighbors lmf of None \<Rightarrow> - 1 | Some k \<Rightarrow> int k);
            ng1 = findNeighborGenolog dm lmf genome (- 1) (rev (take (nat lmi) neighbors));
            ng2 = findNeighborGenolog dm lmf genome 1 (drop (nat (lmi + 1)) neighbors);
            len = l_length lc
        in (ng1 = None \<and> ng2 = None \<longrightarrow>
              guessLandmarkRegion dm rCount lc genome = Inr (None, rCount))
           \<and> (\<forall>n. ng1 = None \<and> ng2 = Some n \<or> ng1 = Some n \<and> ng2 = None \<longrightarrow>
                (\<exists>strip rCount'.
                   guessLandmarkRegion dm rCount lc genome = Inr (Some strip, rCount') \<and>
                   s_genome strip = genome \<and>
                   windows strip =
                     [(f_chr n, of_int \<lfloor>(f_start n + f_end n) / 2 - len / 2\<rfloor>,
                       of_int \<lfloor>(f_start n + f_end n) / 2 - len / 2\<rfloor> + len - 1)]))
           \<and> (\<forall>n1 n2. ng1 = Some n1 \<and> ng2 = Some n2 \<and> f_chr n1 = f_chr n2 \<longrightarrow>
                (\<exists>strip rCount'.
                   guessLandmarkRegion dm rCount lc genome = Inr (Some strip, rCount') \<and>
                   s_genome strip = genome \<and>
                   windows strip =
                     [(f_chr n1,
                       of_int \<lfloor>(min (f_start n1) (f_start n2) + max (f_end n1) (f_end n2)) / 2
                                 - len / 2\<rfloor>,
                       of_int \<lfloor>(min (f_start n1) (f_start n2) + max (f_end n1) (f_end n2)) / 2
                                 - len / 2\<rfloor> + len - 1)]))
           \<and> (\<forall>n1 n2. ng1 = Some n1 \<and> ng2 = Some n2 \<and> f_chr n1 \<noteq> f_chr n2 \<longrightarrow>
                (\<exists>strip rCount'.
                   guessLandmarkRegion dm rCount lc genome = Inr (Some strip, rCount') \<and>
                   s_genome strip = genome \<and>
                   windows strip =
                     [(f_chr n1, of_int \<lfloor>f_start n1 - len / 2\<rfloor>,
                       of_int \<lfloor>f_start n1 - len / 2\<rfloor> + len - 1),
                      (f_chr n2, of_int \<lfloor>f_start n2 - len / 2\<rfloor>,
                       of_int \<lfloor>f_start n2 - len / 2\<rfloor> + len - 1)]))"
    unfolding Let_def
  proof (intro conjI impI allI)
    let ?ng1 = "findNeighborGenolog dm lmf genome (- 1)
      (rev (take (nat (case indexOf (dm_getAllFeaturesNow dm (l_lgenome lc) (f_chr lmf)) lmf of
                         None \<Rightarrow> - 1 | Some k \<Rightarrow> int k))
              (dm_getAllFeaturesNow dm (l_lgenome lc) (f_chr lmf))))"
    let ?ng2 = "findNeighborGenolog dm lmf genome 1
      (drop (nat ((case indexOf (dm_getAllFeaturesNow dm (l_lgenome lc) (f_chr lmf)) lmf of
                         None \<Rightarrow> - 1 | Some k \<Rightarrow> int k) + 1))
              (dm_getAllFeaturesNow dm (l_lgenome lc) (f_chr lmf)))"
    {
      assume "?ng1 = None \<and> ?ng2 = None"
      then show "guessLandmarkRegion dm rCount lc genome = Inr (None, rCount)"
        using g by simp
    next
      fix n assume "?ng1 = None \<and> ?ng2 = Some n \<or> ?ng1 = Some n \<and> ?ng2 = None"
      then have "guessLandmarkRegion dm rCount lc genome
                   = Inr (Some (fst (neighborWindows rCount lc genome n n)),
                          snd (neighborWindows rCount lc genome n n))"
        using g by auto
      then show "\<exists>strip rCount'.
                   guessLandmarkRegion dm rCount lc genome = Inr (Some strip, rCount') \<and>
                   s_genome strip = genome \<and>
                   windows strip =
                     [(f_chr n, of_int \<lfloor>(f_start n + f_end n) / 2 - l_length lc / 2\<rfloor>,
                       of_int \<lfloor>(f_start n + f_end n) / 2 - l_length lc / 2\<rfloor> + l_length lc - 1)]"
        using neighborWindows_same[of n n rCount lc genome]
        by (simp add: neighborWindows_genome Let_def)
    next
      fix n1 n2 assume h: "?ng1 = Some n1 \<and> ?ng2 = Some n2 \<and> f_chr n1 = f_chr n2"
      then have "guessLandmarkRegion dm rCount lc genome
                   = Inr (Some (fst (neighborWindows rCount lc genome n1 n2)),
                          snd (neighborWindows rCount lc genome n1 n2))"
        using g by auto
      then show "\<exists>strip rCount'.
                   guessLandmarkRegion dm rCount lc genome = Inr (Some strip, rCount') \<and>
                   s_genome strip = genome \<and>
                   windows strip =
                     [(f_chr n1,
                       of_int \<lfloor>(min (f_start n1) (f_start n2) + max (f_end n1) (f_end n2)) / 2
                                 - l_length lc / 2\<rfloor>,
                       of_int \<lfloor>(min (f_start n1) (f_start n2) + max (f_end n1) (f_end n2)) / 2
                                 - l_length lc / 2\<rfloor> + l_length lc - 1)]"
        using neighborWindows_same[of n1 n2 rCount lc genome] h
        by (simp add: neighborWindows_genome Let_def)
    next
      fix n1 n2 assume h: "?ng1 = Some n1 \<and> ?ng2 = Some n2 \<and> f_chr n1 \<noteq> f_chr n2"
      then have "guessLandmarkRegion dm rCount lc genome
                   = Inr (Some (fst (neighborWindows rCount lc genome n1 n2)),
                          snd (neighborWindows rCount lc genome n1 n2))"
        using g by auto
      then show "\<exists>strip rCount'.
                   guessLandmarkRegion dm rCount lc genome = Inr (Some strip, rCount') \<and>
                   s_genome strip = genome \<and>
                   windows strip =
                     [(f_chr n1, of_int \<lfloor>f_start n1 - l_length lc / 2\<rfloor>,
                       of_int \<lfloor>f_start n1 - l_length lc / 2\<rfloor> + l_length lc - 1),
                      (f_chr n2, of_int \<lfloor>f_start n2 - l_length lc / 2\<rfloor>,
                       of_int \<lfloor>f_start n2 - l_length lc / 2\<rfloor> + l_length lc - 1)]"
        using neighborWindows_other[of n1 n2 rCount lc genome] h
        by (simp add: neighborWindows_genome Let_def)
    }
  qed
next
  show "map_sum id (map_option windows \<circ> fst)
        (guessLandmarkRegion (storeB None (Some (featureOn ''N2b'' genomeB chr2 5000 e)))
           0 landmarkL genomeB)
       = Inr (Some [(chr2, of_int \<lfloor>(5000 + e) / 2 - 500\<rfloor>,
                     of_int \<lfloor>(5000 + e) / 2 - 500\<rfloor> + 999)])"
    by (simp add: guess_right_only windows_def)
qed

theorem guessLandmarkRegion_fallback_witness:
  "map_sum id (map_option windows \<circ> fst)
        (guessLandmarkRegion (storeB None (Some (featureOn ''N2b'' genomeB chr2 5000 5001)))
           0 landmarkL genomeB)
       = Inr (Some [(chr2, 4500, 5499)])
   \<and> (\<exists>strip rCount'.
         guessLandmarkRegion
           (storeB (Some (featureOn ''N1b'' genomeB chr1 3000 3500))
                   (Some (featureOn ''N2b'' genomeB chr2 5000 6000))) 0 landmarkL genomeB
           = Inr (Some strip, rCount') \<and>
         s_genome strip = genomeB \<and>
         windows strip = [(chr1, 2500, 3499), (chr2, 4500, 5499)])"
proof -
  let ?dm = "storeB (Some (featureOn ''N1b'' genomeB chr1 3000 3500))
                    (Some (featureOn ''N2b'' genomeB chr2 5000 6000))"
  note T = guessLandmarkRegion_fallback[of ?dm landmarkL genomeB "''5-prime''" 0 featL 5001]
  have a: "map_sum id (map_option windows \<circ> fst)
        (guessLandmarkRegion (storeB None (Some (featureOn ''N2b'' genomeB chr2 5000 5001)))
           0 landmarkL genomeB)
       = Inr (Some [(chr2, 4500, 5499)])"
    using T[THEN conjunct2, THEN conjunct2] by simp
  have lm: "dm_getGenologOfId ?dm (l_landmark landmarkL) (l_lgenome landmarkL) = Some featL"
    by (simp add: storeB_def landmarkL_def)
  have ng: "findNeighborGenolog ?dm featL genomeB (- 1)
              (rev (take (nat (case indexOf (dm_getAllFeaturesNow ?dm (l_lgenome landmarkL) (f_chr featL)) featL of
                                 None \<Rightarrow> - 1 | Some k \<Rightarrow> int k))
                      (dm_getAllFeaturesNow ?dm (l_lgenome landmarkL) (f_chr featL))))
            = Some (featureOn ''N1b'' genomeB chr1 3000 3500)"
    "findNeighborGenolog ?dm featL genomeB 1
              (drop (nat ((case indexOf (dm_getAllFeaturesNow ?dm (l_lgenome landmarkL) (f_chr featL)) featL of
                                 None \<Rightarrow> - 1 | Some k \<Rightarrow> int k) + 1))
                      (dm_getAllFeaturesNow ?dm (l_lgenome landmarkL) (f_chr featL)))
            = Some (featureOn ''N2b'' genomeB chr2 5000 6000)"
    by (simp_all add: storeB_def landmarkL_def featL_def featN1_def featN2_def featureOn_def
        genomeA_def genomeB_def chr1_def chr2_def)
  have ne: "f_chr (featureOn ''N1b'' genomeB chr1 3000 3500)
              \<noteq> f_chr (featureOn ''N2b'' genomeB chr2 5000 6000)"
    by (simp add: featureOn_def chr1_def chr2_def)
  from T[THEN conjunct2, THEN conjunct1, rule_format, OF lm, unfolded Let_def,
      THEN conjunct2, THEN conjunct2, THEN conjunct2, rule_format,
      of "featureOn ''N1b'' genomeB chr1 3000 3500" "featureOn ''N2b'' genomeB chr2 5000 6000"]
    ng ne
  have b: "\<exists>strip rCount'.
         guessLandmarkRegion ?dm 0 landmarkL genomeB = Inr (Some strip, rCount') \<and>
         s_genome strip = genomeB \<and>
         windows strip = [(chr1, 2500, 3499), (chr2, 4500, 5499)]"
    by (simp add: featureOn_def landmarkL_def)
  show ?thesis using a b by blast
qed


section \<open>The cascade of moveBorder\<close>

text \<open>
  Claim C7: in a strip whose regions are all at least 25 wide, moving a border by more
  than the slack of the adjacent region cascades the excess to the regions further on,
  each taking what its slack allows, until the excess is absorbed or the end of the
  strip is reached, where what is left is dropped; for the widths 100, 30 and 100,
  moving the first border by 20 leaves the widths 120, 25 and 85. The widths after
  \<open>_move\<close> are those of \<open>growSpec\<close> for a positive amount and of \<open>shrinkSpec\<close> for a
  negative one, the amount returned is the amount absorbed, and \<open>moveBorder\<close> applies
  \<open>_move\<close> with the minimum 25 to the strip and the position of the region it is given.
\<close>

theorem moveBorder_cascade:
  "((\<forall>r\<in>set rs. 25 \<le> r_width r) \<and> k + 1 < length rs \<and> 0 < amt \<longrightarrow>
      map r_width (fst (move rs (int k) amt 25)) = growSpec 25 k amt (map r_width rs)
      \<and> snd (move rs (int k) amt 25) = absorbed 25 amt (drop (k + 1) (map r_width rs)))
   \<and> ((\<forall>r\<in>set rs. 25 \<le> r_width r) \<and> k + 1 < length rs \<and> amt < 0 \<longrightarrow>
      map r_width (fst (move rs (int k) amt 25)) = shrinkSpec 25 k amt (map r_width rs)
      \<and> snd (move rs (int k) amt 25)
          = - absorbed 25 (- amt) (rev (take (k + 1) (map r_width rs))))
   \<and> (findRegion strips r1 = Some (si, ri) \<longrightarrow>
        s_regions (moveBorder strips r1 amt ! si)
          = fst (move (s_regions (strips ! si)) (int ri) amt 25))
   \<and> map (\<lambda>s. map r_width (s_regions s))
        (moveBorder [stripA [100, 30, 100]] (regionA 0 100) 20) = [[120, 25, 85]]"
proof (intro conjI impI)
  assume h: "(\<forall>r\<in>set rs. 25 \<le> r_width r) \<and> k + 1 < length rs \<and> 0 < amt"
  then have ge: "\<forall>w\<in>set (map r_width rs). 25 \<le> w" by simp
  from h have i: "0 \<le> int k" "int k < int (length rs)" "0 < amt" by simp_all
  from move_grow[OF ge i]
  show "map r_width (fst (move rs (int k) amt 25)) = growSpec 25 k amt (map r_width rs)"
    and "snd (move rs (int k) amt 25) = absorbed 25 amt (drop (k + 1) (map r_width rs))"
    by (simp_all add: growSpec_def)
next
  assume h: "(\<forall>r\<in>set rs. 25 \<le> r_width r) \<and> k + 1 < length rs \<and> amt < 0"
  then have ge: "\<forall>w\<in>set (map r_width rs). 25 \<le> w" by simp
  from h have i: "- 1 \<le> int k" "int k + 1 < int (length rs)" "amt < 0" by simp_all
  have k1: "nat (int k + 1) = k + 1" by simp
  from move_shrink[OF ge i]
  show "map r_width (fst (move rs (int k) amt 25)) = shrinkSpec 25 k amt (map r_width rs)"
    and "snd (move rs (int k) amt 25)
          = - absorbed 25 (- amt) (rev (take (k + 1) (map r_width rs)))"
    by (simp_all only: k1 shrinkSpec_def add.assoc one_add_one)
next
  assume "findRegion strips r1 = Some (si, ri)"
  then show "s_regions (moveBorder strips r1 amt ! si)
          = fst (move (s_regions (strips ! si)) (int ri) amt 25)"
    by (rule moveBorder_found)
next
  show "map (\<lambda>s. map r_width (s_regions s))
        (moveBorder [stripA [100, 30, 100]] (regionA 0 100) 20) = [[120, 25, 85]]"
    by (rule moveBorder_example)
qed

theorem moveBorder_cascade_witness:
  "map r_width (fst (move (s_regions (stripA [100, 30, 100])) (int 0) 20 25)) = [120, 25, 85]
   \<and> snd (move (s_regions (stripA [100, 30, 100])) (int 0) 20 25) = 20
   \<and> map r_width (fst (move (s_regions (stripA [100, 30, 100])) (int 1) (- 20) 25)) = [85, 25, 120]
   \<and> map r_width (fst (move (s_regions (stripA [100, 30, 100])) (int 0) 200 25)) = [180, 25, 25]
   \<and> snd (move (s_regions (stripA [100, 30, 100])) (int 0) 200 25) = 80"
proof -
  have ge: "\<forall>r\<in>set (s_regions (stripA [100, 30, 100])). 25 \<le> r_width r"
    by (simp add: stripA_def regionA_def rawRegion_def)
  have len: "length (s_regions (stripA [100, 30, 100])) = 3" by (simp add: stripA_def)
  have ws: "map r_width (s_regions (stripA [100, 30, 100])) = [100, 30, 100]"
    by (simp add: stripA_def regionA_def rawRegion_def)
  have g: "growSpec 25 0 20 [100, 30, 100] = [120, 25, 85]"
    "absorbed 25 20 (drop (0 + 1) [100, 30, 100]) = 20"
    "growSpec 25 0 200 [100, 30, 100] = [180, 25, 25]"
    "absorbed 25 200 (drop (0 + 1) [100, 30, 100]) = 80"
    "shrinkSpec 25 1 (- 20) [100, 30, 100] = [85, 25, 120]"
    by (simp_all add: growSpec_def shrinkSpec_def absorbed_def Let_def)
  have a: "(\<forall>r\<in>set (s_regions (stripA [100, 30, 100])). 25 \<le> r_width r) \<and>
           0 + 1 < length (s_regions (stripA [100, 30, 100])) \<and> (0::real) < 20"
    using ge len by simp
  have b: "(\<forall>r\<in>set (s_regions (stripA [100, 30, 100])). 25 \<le> r_width r) \<and>
           1 + 1 < length (s_regions (stripA [100, 30, 100])) \<and> (- 20::real) < 0"
    using ge len by simp
  have c: "(\<forall>r\<in>set (s_regions (stripA [100, 30, 100])). 25 \<le> r_width r) \<and>
           0 + 1 < length (s_regions (stripA [100, 30, 100])) \<and> (0::real) < 200"
    using ge len by simp
  from moveBorder_cascade[of "s_regions (stripA [100, 30, 100])" 0 20,
      THEN conjunct1, rule_format, OF a]
  have 1: "map r_width (fst (move (s_regions (stripA [100, 30, 100])) (int 0) 20 25)) = [120, 25, 85]"
    "snd (move (s_regions (stripA [100, 30, 100])) (int 0) 20 25) = 20"
    by (simp_all only: ws g)
  from moveBorder_cascade[of "s_regions (stripA [100, 30, 100])" 1 "- 20",
      THEN conjunct2, THEN conjunct1, rule_format, OF b]
  have 2: "map r_width (fst (move (s_regions (stripA [100, 30, 100])) (int 1) (- 20) 25)) = [85, 25, 120]"
    by (simp_all only: ws g)
  from moveBorder_cascade[of "s_regions (stripA [100, 30, 100])" 0 200,
      THEN conjunct1, rule_format, OF c]
  have 3: "map r_width (fst (move (s_regions (stripA [100, 30, 100])) (int 0) 200 25)) = [180, 25, 25]"
    "snd (move (s_regions (stripA [100, 30, 100])) (int 0) 200 25) = 80"
    by (simp_all only: ws g)
  show ?thesis using 1 2 3 by blast
qed



section \<open>The coalescing of combineRegions\<close>

text \<open>
  Claim C8: for every list of blocks with integer indices, \<open>combineRegions\<close> sorts the
  blocks by index and folds them from left to right: a block whose index equals the
  previous one's is dropped, a block whose index is the previous one's plus 1 extends
  the previous block's end to its own, and any other block starts a new group; the
  indices 0, 1 and 3 yield two groups, 0 to 1 combined and 3 alone. The previous block
  is the last block folded: a group carries the index of the last block merged into it.
\<close>

theorem combineRegions_coalesces:
  "combineRegions regions = combineSpec regions
   \<and> combineRegions [blockAt 3, blockAt 0, blockAt 1]
       = [(blockAt 0)\<lparr>b_end := b_end (blockAt 1), b_index := 1\<rparr>, blockAt 3]"
proof
  show "combineRegions regions = combineSpec regions"
  proof (cases "sort_key b_index regions")
    case Nil
    then show ?thesis by (simp add: combineRegions_def combineSpec_def)
  next
    case (Cons r rs)
    have "foldl combineStep ([] @ [r]) rs = [] @ groups r rs"
      by (rule foldl_combineStep_groups)
    then show ?thesis using Cons
      by (simp add: combineRegions_def combineSpec_def combineStep_Nil)
  qed
  show "combineRegions [blockAt 3, blockAt 0, blockAt 1]
       = [(blockAt 0)\<lparr>b_end := b_end (blockAt 1), b_index := 1\<rparr>, blockAt 3]"
    by (simp add: combineRegions_def combineStep_def blockAt_def)
qed

theorem combineRegions_coalesces_witness:
  "combineSpec [blockAt 0, blockAt 1, blockAt 3]
     = [\<lparr>b_chr = chr1, b_start = 100, b_end = 299, b_index = 1\<rparr>,
        \<lparr>b_chr = chr1, b_start = 400, b_end = 499, b_index = 3\<rparr>]
   \<and> combineRegions [blockAt 0, blockAt 1, blockAt 3]
     = [\<lparr>b_chr = chr1, b_start = 100, b_end = 299, b_index = 1\<rparr>,
        \<lparr>b_chr = chr1, b_start = 400, b_end = 499, b_index = 3\<rparr>]
   \<and> combineRegions [blockAt 1, blockAt 0, blockAt 1, blockAt 2]
     = [\<lparr>b_chr = chr1, b_start = 100, b_end = 399, b_index = 2\<rparr>]"
proof -
  have a: "combineSpec [blockAt 0, blockAt 1, blockAt 3]
     = [\<lparr>b_chr = chr1, b_start = 100, b_end = 299, b_index = 1\<rparr>,
        \<lparr>b_chr = chr1, b_start = 400, b_end = 499, b_index = 3\<rparr>]"
    by (simp add: combineSpec_def blockAt_def)
  have b: "combineSpec [blockAt 1, blockAt 0, blockAt 1, blockAt 2]
     = [\<lparr>b_chr = chr1, b_start = 100, b_end = 399, b_index = 2\<rparr>]"
    by (simp add: combineSpec_def blockAt_def)
  show ?thesis
    using a b combineRegions_coalesces[of "[blockAt 0, blockAt 1, blockAt 3]", THEN conjunct1]
      combineRegions_coalesces[of "[blockAt 1, blockAt 0, blockAt 1, blockAt 2]", THEN conjunct1]
    by simp
qed


section \<open>Idempotence of layout\<close>





section \<open>moveBorder conserves the width of the strip\<close>

text \<open>
  Claim C10: for every strip and every amount, positive or negative, \<open>moveBorder\<close>
  leaves the sum of the widths of every strip's regions unchanged, since each step of
  the cascade takes from one region what it gives to its neighbour, and it changes
  no region's chromosome, start or end. The same holds of \<open>_move\<close> at every index and
  with every minimum.
\<close>

theorem moveBorder_conserves:
  "map (\<lambda>s. sum_list (map r_width (s_regions s))) (moveBorder strips r1 amt)
     = map (\<lambda>s. sum_list (map r_width (s_regions s))) strips
   \<and> map (\<lambda>s. map r_chr (s_regions s)) (moveBorder strips r1 amt)
       = map (\<lambda>s. map r_chr (s_regions s)) strips
   \<and> map (\<lambda>s. map r_start (s_regions s)) (moveBorder strips r1 amt)
       = map (\<lambda>s. map r_start (s_regions s)) strips
   \<and> map (\<lambda>s. map r_end (s_regions s)) (moveBorder strips r1 amt)
       = map (\<lambda>s. map r_end (s_regions s)) strips
   \<and> sum_list (map r_width (fst (move rs i amt m))) = sum_list (map r_width rs)
   \<and> map r_chr (fst (move rs i amt m)) = map r_chr rs
   \<and> map r_start (fst (move rs i amt m)) = map r_start rs
   \<and> map r_end (fst (move rs i amt m)) = map r_end rs"
proof (cases rule: moveBorder_cases[of strips r1 amt])
  case stale
  then show ?thesis by (simp add: move_sum move_keeps)
next
  case (found si ri)
  then show ?thesis
    by (simp add: move_sum move_keeps map_update_same_at)
qed

theorem moveBorder_conserves_witness:
  "map (\<lambda>s. sum_list (map r_width (s_regions s)))
     (moveBorder [stripA [100, 30, 100]] (regionA 0 100) 20) = [230]
   \<and> map (\<lambda>s. map r_start (s_regions s))
     (moveBorder [stripA [100, 30, 100]] (regionA 0 100) 20) = [[1, 1001, 2001]]"
  using moveBorder_conserves[of "[stripA [100, 30, 100]]" "regionA 0 100" 20]
  by (simp add: stripA_def regionA_def rawRegion_def)

end
